theory Spec2Isabelle
  imports Main "HOL-Library.AList"
begin

section \<open>Values, rows and JavaScript collections\<close>

text \<open>
  A cell of a row is a JavaScript value. Numbers are modelled as integers (years, day
  offsets and entity ids are integers; non-integral floating point values are outside the
  model). \<open>Undefined\<close> is what reading an absent field gives.
\<close>

datatype val = Undefined | Null | Bool bool | Num int | Str string

datatype error = TypeError | UnknownDataKey string

type_synonym columnSlug = string

text \<open>
  \<open>interface Row { [columnName: string]: any }\<close>: an object with its own keys in
  insertion order (column slugs are never integer-like keys).
\<close>

type_synonym row = "(string \<times> val) list"

definition row_get :: "row \<Rightarrow> string \<Rightarrow> val" where
  \<comment> \<open>\<open>row[k]\<close>\<close>
  "row_get r k = (case map_of r k of None \<Rightarrow> Undefined | Some v \<Rightarrow> v)"

definition row_set :: "row \<Rightarrow> string \<Rightarrow> val \<Rightarrow> row" where
  \<comment> \<open>\<open>row[k] = v\<close>: an existing key keeps its position\<close>
  "row_set r k v = AList.update k v r"

definition row_delete :: "row \<Rightarrow> string \<Rightarrow> row" where
  \<comment> \<open>\<open>delete row[k]\<close>\<close>
  "row_delete r k = AList.delete k r"

fun truthy :: "val \<Rightarrow> bool" where
  "truthy Undefined = False"
| "truthy Null = False"
| "truthy (Bool b) = b"
| "truthy (Num n) = (n \<noteq> 0)"
| "truthy (Str s) = (s \<noteq> [])"

text \<open>\<open>new Set(xs)\<close>, read back in insertion order.\<close>

definition set_add :: "'a list \<Rightarrow> 'a \<Rightarrow> 'a list" where
  "set_add acc x = (if x \<in> set acc then acc else acc @ [x])"

definition set_from :: "'a list \<Rightarrow> 'a list" where
  "set_from xs = foldl set_add [] xs"


definition nth_val :: "val list \<Rightarrow> nat \<Rightarrow> val" where
  "nth_val xs i = (if i < length xs then xs ! i else Undefined)"

text \<open>\<open>String(x)\<close> and \<open>xs.join(d)\<close>.\<close>

definition digit :: "nat \<Rightarrow> char" where
  "digit n = ''0123456789'' ! n"

fun string_of_nat :: "nat \<Rightarrow> string" where
  "string_of_nat n = (if n < 10 then [digit n] else string_of_nat (n div 10) @ [digit (n mod 10)])"

declare string_of_nat.simps [simp del]

definition string_of_int :: "int \<Rightarrow> string" where
  "string_of_int i = (if i < 0 then CHR ''-'' # string_of_nat (nat (- i)) else string_of_nat (nat i))"

fun to_string :: "val \<Rightarrow> string" where
  "to_string Undefined = ''undefined''"
| "to_string Null = ''null''"
| "to_string (Bool b) = (if b then ''true'' else ''false'')"
| "to_string (Num n) = string_of_int n"
| "to_string (Str s) = s"

fun join :: "string \<Rightarrow> string list \<Rightarrow> string" where
  "join d [] = []"
| "join d [x] = x"
| "join d (x # y # xs) = x @ d @ join d (y # xs)"

definition join_vals :: "string \<Rightarrow> val list \<Rightarrow> string" where
  \<comment> \<open>\<open>Array.prototype.join\<close>: \<open>null\<close> and \<open>undefined\<close> elements give the empty string\<close>
  "join_vals d vs =
     join d (map (\<lambda>v. if v = Undefined \<or> v = Null then [] else to_string v) vs)"

section \<open>Columns and tables\<close>

text \<open>
  \<open>ColumnSpec\<close> with the fields the table logic reads; the display metadata (unit,
  description, source, ...) is carried along unread and left out. \<open>fn\<close> is the
  \<open>RowToValueMapper\<close> of a \<open>ComputedColumnSpec\<close>, absent on a plain spec.
\<close>

record ColumnSpec =
  slug :: columnSlug
  name :: "string option"
  owidVariableId :: "int option"
  isDailyMeasurement :: bool
  isFilterColumn :: bool
  annotationsColumnSlug :: "columnSlug option"
  fn :: "(row \<Rightarrow> nat option \<Rightarrow> val) option"

definition plainSpec :: "columnSlug \<Rightarrow> ColumnSpec" where
  \<comment> \<open>the object literal \<open>{ slug }\<close>\<close>
  "plainSpec s = \<lparr>slug = s, name = None, owidVariableId = None, isDailyMeasurement = False,
     isFilterColumn = False, annotationsColumnSlug = None, fn = None\<rparr>"

datatype columnType = AnyColumn | BooleanColumn

record AbstractColumn =
  ctype :: columnType
  spec :: ColumnSpec

definition col_name :: "AbstractColumn \<Rightarrow> string" where
  \<comment> \<open>\<open>this.spec.name ?? this.spec.slug\<close>\<close>
  "col_name c = (case name (spec c) of None \<Rightarrow> slug (spec c) | Some n \<Rightarrow> n)"

definition col_slug :: "AbstractColumn \<Rightarrow> columnSlug" where
  "col_slug c = slug (spec c)"

text \<open>
  \<open>AbstractTable\<close>: the row store and the column registry, a \<open>Map\<close> from slug to
  column in insertion order (\<open>Map.set\<close> on a present key replaces the value in place).
\<close>

record Table =
  rows :: "row list"
  columns :: "(columnSlug \<times> AbstractColumn) list"

definition columnsAsArray :: "Table \<Rightarrow> AbstractColumn list" where
  "columnsAsArray t = map snd (columns t)"

definition columnNames :: "Table \<Rightarrow> string list" where
  "columnNames t = set_from (map col_name (columnsAsArray t))"

definition filterColumnSlugs :: "Table \<Rightarrow> columnSlug list" where
  "filterColumnSlugs t = map col_slug (filter (\<lambda>c. isFilterColumn (spec c)) (columnsAsArray t))"

definition makeSpecsFromRows :: "row list \<Rightarrow> (columnSlug \<times> ColumnSpec) list" where
  "makeSpecsFromRows rs =
     foldl (\<lambda>m r. foldl (\<lambda>m key. AList.update key (plainSpec key) m) m (map fst r)) [] rs"

definition detectAndAddColumnsFromRows :: "Table \<Rightarrow> Table" where
  "detectAndAddColumnsFromRows t =
     t\<lparr>columns := foldl (\<lambda>cols (s, sp).
          if s \<in> fst ` set cols then cols
          else AList.update s \<lparr>ctype = AnyColumn, spec = sp\<rparr> cols)
        (columns t) (makeSpecsFromRows (rows t))\<rparr>"

definition newTable :: "row list \<Rightarrow> (columnSlug \<times> ColumnSpec) list option \<Rightarrow> Table" where
  \<comment> \<open>the constructor\<close>
  "newTable rs columnSpecs =
     (case columnSpecs of
        None \<Rightarrow> detectAndAddColumnsFromRows \<lparr>rows = rs, columns = []\<rparr>
      | Some specs \<Rightarrow>
          \<lparr>rows = rs,
           columns = foldl (\<lambda>cols (s, sp). AList.update s \<lparr>ctype = AnyColumn, spec = sp\<rparr> cols)
                       [] specs\<rparr>)"

definition deleteColumnBySlug :: "Table \<Rightarrow> columnSlug \<Rightarrow> Table" where
  \<comment> \<open>\<open>this.columnNames.delete(slug)\<close> removes the slug from the set the getter
      \<open>columnNames\<close> has just built; \<open>this.columns\<close> is not touched\<close>
  "deleteColumnBySlug t s =
     (let rows' = map (\<lambda>r. row_delete r s) (rows t);
          names' = removeAll s (columnNames t)
      in t\<lparr>rows := rows'\<rparr>)"

definition private_addComputedColumn ::
  "Table \<Rightarrow> ColumnSpec \<Rightarrow> (row \<Rightarrow> nat option \<Rightarrow> val) \<Rightarrow> columnType \<Rightarrow> Table" where
  \<comment> \<open>\<open>_addComputedColumn(spec, columnType)\<close>, the spec's \<open>fn\<close> passed beside it\<close>
  "private_addComputedColumn t sp f ct =
     t\<lparr>columns := AList.update (slug sp) \<lparr>ctype = ct, spec = sp\<lparr>fn := Some f\<rparr>\<rparr> (columns t),
       rows := map (\<lambda>(index, r). row_set r (slug sp) (f r (Some index))) (enumerate 0 (rows t))\<rparr>"

definition addFilterColumn :: "Table \<Rightarrow> columnSlug \<Rightarrow> (row \<Rightarrow> bool) \<Rightarrow> Table" where
  "addFilterColumn t s predicate =
     private_addComputedColumn t ((plainSpec s)\<lparr>isFilterColumn := True\<rparr>)
       (\<lambda>r index. Bool (predicate r)) BooleanColumn"

definition addColumnSpec :: "Table \<Rightarrow> ColumnSpec \<Rightarrow> Table" where
  "addColumnSpec t sp = t\<lparr>columns := AList.update (slug sp) \<lparr>ctype = AnyColumn, spec = sp\<rparr> (columns t)\<rparr>"

definition addComputedColumn :: "Table \<Rightarrow> ColumnSpec \<Rightarrow> (row \<Rightarrow> nat option \<Rightarrow> val) \<Rightarrow> Table" where
  "addComputedColumn t sp f = private_addComputedColumn t sp f AnyColumn"

definition addRowsAndDetectColumns :: "Table \<Rightarrow> row list \<Rightarrow> Table" where
  "addRowsAndDetectColumns t rs = detectAndAddColumnsFromRows (t\<lparr>rows := rows t @ rs\<rparr>)"

subsection \<open>The unfiltered-row view\<close>

text \<open>
  \<open>unfilteredRows\<close> writes the value of a filter function onto a row that has none yet,
  so the view returns the row store as it is afterwards together with the rows kept.
  Reading the column of a filter slug that is not a key of the registry, or calling the
  \<open>fn\<close> of a spec that has none, is a \<open>TypeError\<close>.
\<close>

definition filterFns ::
  "Table \<Rightarrow> error + (columnSlug \<times> (row \<Rightarrow> nat option \<Rightarrow> val) option) list" where
  "filterFns t =
     (let slugs = filterColumnSlugs t
      in if \<forall>s \<in> set slugs. map_of (columns t) s \<noteq> None
         then Inr (map (\<lambda>s. (s, fn (spec (the (map_of (columns t) s))))) slugs)
         else Inl TypeError)"

fun filterFn ::
  "(columnSlug \<times> (row \<Rightarrow> nat option \<Rightarrow> val) option) list \<Rightarrow> row \<Rightarrow> error + (row \<times> bool)" where
  \<comment> \<open>\<open>slugs.every((slug, index) => ...)\<close>, stopping at the first falsy value\<close>
  "filterFn [] r = Inr (r, True)"
| "filterFn ((s, f) # rest) r =
     (if row_get r s = Undefined then
        (case f of
           None \<Rightarrow> Inl TypeError
         | Some g \<Rightarrow>
             (let r' = row_set r s (g r None)
              in if truthy (row_get r' s) then filterFn rest r' else Inr (r', False)))
      else if truthy (row_get r s) then filterFn rest r
      else Inr (r, False))"

fun filter_rows ::
  "(columnSlug \<times> (row \<Rightarrow> nat option \<Rightarrow> val) option) list \<Rightarrow> row list
     \<Rightarrow> error + (row list \<times> row list)" where
  \<comment> \<open>\<open>this.rows.filter(filterFn)\<close>: the rows after the pass, and the rows kept\<close>
  "filter_rows fs [] = Inr ([], [])"
| "filter_rows fs (r # rs) =
     (case filterFn fs r of
        Inl e \<Rightarrow> Inl e
      | Inr (r', keep) \<Rightarrow>
          (case filter_rows fs rs of
             Inl e \<Rightarrow> Inl e
           | Inr (rs', kept) \<Rightarrow> Inr (r' # rs', if keep then r' # kept else kept)))"

definition unfilteredRows :: "Table \<Rightarrow> error + (Table \<times> row list)" where
  "unfilteredRows t =
     (case filterFns t of
        Inl e \<Rightarrow> Inl e
      | Inr fs \<Rightarrow>
          if fs = [] then Inr (t, rows t)
          else (case filter_rows fs (rows t) of
                  Inl e \<Rightarrow> Inl e
                | Inr (rows', kept) \<Rightarrow> Inr (t\<lparr>rows := rows'\<rparr>, kept)))"

subsection \<open>Delimited export\<close>

definition toDelimited :: "Table \<Rightarrow> string option \<Rightarrow> int option \<Rightarrow> string" where
  \<comment> \<open>\<open>toDelimited(delimiter = ",", rowLimit?)\<close>; a cell is \<open>row[cName] ?? ""\<close>,
      looked up under the column's name\<close>
  "toDelimited t delimiter rowLimit =
     (let d = (case delimiter of None \<Rightarrow> '','' | Some d \<Rightarrow> d);
          cols = columnNames t;
          header = join d cols @ [CHR 0x0A];
          rs = (case rowLimit of
                  None \<Rightarrow> rows t
                | Some n \<Rightarrow>
                    if n = 0 then rows t
                    else if n < 0 then take (nat (int (length (rows t)) + n)) (rows t)
                    else take (nat n) (rows t));
          body = join [CHR 0x0A]
                   (map (\<lambda>r. join_vals d
                      (map (\<lambda>cName. case row_get r cName of
                                       Undefined \<Rightarrow> Str [] | Null \<Rightarrow> Str [] | v \<Rightarrow> v) cols)) rs)
      in header @ body)"

subsection \<open>Grouped rolling averages\<close>

text \<open>
  \<open>computeRollingAverage\<close> and \<open>insertMissingValuePlaceholders\<close> live in
  \<open>charts/Util\<close>, which is not part of the sources at hand: they are the parameters
  \<open>cra\<close> (values and window size to averages) and \<open>imvp\<close> (values and times to values
  with placeholders).

  The loop body runs for \<open>i < rows.length\<close>, where \<open>rows[i]\<close> is a row object, so
  \<open>if (!row) break\<close> never fires; the recursion is over the rows still to visit.
\<close>

fun groupLoop ::
  "(val list \<Rightarrow> int \<Rightarrow> val list) \<Rightarrow> (val list \<Rightarrow> val list \<Rightarrow> val list) \<Rightarrow> (row \<Rightarrow> val)
     \<Rightarrow> string \<Rightarrow> string \<Rightarrow> int \<Rightarrow> row list \<Rightarrow> val \<Rightarrow> row list \<Rightarrow> val list list
     \<Rightarrow> val list list" where
  "groupLoop cra imvp valueAccessor groupColName dateColName rollingAverage
       [] currentGroup currentRows groups = groups"
| "groupLoop cra imvp valueAccessor groupColName dateColName rollingAverage
       (r # rest) currentGroup currentRows groups =
     (let groupName = row_get r groupColName
      in if currentGroup \<noteq> groupName then
           (let averages = filter (\<lambda>v. v \<noteq> Null)
                  (cra (imvp (map valueAccessor currentRows)
                             (map (\<lambda>r. row_get r dateColName) currentRows))
                       rollingAverage)
            in groupLoop cra imvp valueAccessor groupColName dateColName rollingAverage
                 rest groupName [r] (groups @ [averages]))
         else groupLoop cra imvp valueAccessor groupColName dateColName rollingAverage
                rest currentGroup (currentRows @ [r]) groups)"

definition computeRollingAveragesForEachGroup ::
  "(val list \<Rightarrow> int \<Rightarrow> val list) \<Rightarrow> (val list \<Rightarrow> val list \<Rightarrow> val list) \<Rightarrow> row list
     \<Rightarrow> (row \<Rightarrow> val) \<Rightarrow> string \<Rightarrow> string \<Rightarrow> int \<Rightarrow> error + val list" where
  \<comment> \<open>\<open>rows[0][groupColName]\<close> on an empty array is a \<open>TypeError\<close>\<close>
  "computeRollingAveragesForEachGroup cra imvp rs valueAccessor groupColName dateColName
       rollingAverage =
     (case rs of
        [] \<Rightarrow> Inl TypeError
      | r0 # _ \<Rightarrow>
          Inr (concat (groupLoop cra imvp valueAccessor groupColName dateColName rollingAverage
                         rs (row_get r0 groupColName) [] [])))"

definition addRollingAverageColumn ::
  "(val list \<Rightarrow> int \<Rightarrow> val list) \<Rightarrow> (val list \<Rightarrow> val list \<Rightarrow> val list) \<Rightarrow> Table
     \<Rightarrow> ColumnSpec \<Rightarrow> int \<Rightarrow> (row \<Rightarrow> val) \<Rightarrow> columnSlug \<Rightarrow> columnSlug \<Rightarrow> error + Table" where
  "addRollingAverageColumn cra imvp t sp windowSize valueAccessor dateColName groupByCol =
     (case computeRollingAveragesForEachGroup cra imvp (rows t) valueAccessor groupByCol
             dateColName windowSize of
        Inl e \<Rightarrow> Inl e
      | Inr averages \<Rightarrow>
          Inr (private_addComputedColumn t sp
                 (\<lambda>r index. case index of None \<Rightarrow> Undefined | Some i \<Rightarrow> nth_val averages i)
                 AnyColumn))"

section \<open>Legacy ingestion\<close>

record OwidVariableDisplaySettings =
  yearIsDay :: bool
  zeroDay :: "string option"
  entityAnnotationsMap :: "string option"

record OwidVariable =
  var_id :: int
  var_name :: string
  var_entities :: "int list"
  var_years :: "int list"
  var_values :: "val list"
  display :: OwidVariableDisplaySettings

record EntityMeta =
  meta_name :: string
  meta_code :: string

text \<open>
  The wire input: \<open>variables\<close> in the order \<open>for (const key in json.variables)\<close>
  visits them, \<open>entityKey\<close> as the lookup from entity id to name and code.
\<close>

record OwidVariablesAndEntityKey =
  variables :: "OwidVariable list"
  entityKey :: "(int \<times> EntityMeta) list"

fun split_on :: "char \<Rightarrow> string \<Rightarrow> string list" where
  \<comment> \<open>\<open>s.split(c)\<close>\<close>
  "split_on c [] = [[]]"
| "split_on c (x # xs) =
     (if x = c then [] # split_on c xs
      else (case split_on c xs of [] \<Rightarrow> [[x]] | w # ws \<Rightarrow> (x # w) # ws))"

definition is_space :: "char \<Rightarrow> bool" where
  "is_space c = (c \<in> {CHR '' '', CHR 0x09, CHR 0x0A, CHR 0x0B, CHR 0x0C, CHR 0x0D})"

definition trim :: "string \<Rightarrow> string" where
  "trim s = rev (dropWhile is_space (rev (dropWhile is_space s)))"

definition annotationsToMap :: "string \<Rightarrow> (string \<times> string) list" where
  "annotationsToMap annotations =
     foldl (\<lambda>m line.
              (case map trim (split_on CHR '':'' line) of
                 [] \<Rightarrow> m
               | key # ws \<Rightarrow> AList.update key (join '':'' ws) m))
       [] (split_on (CHR 0x0A) annotations)"

definition makeAnnotationColumnSlug :: "columnSlug \<Rightarrow> columnSlug" where
  "makeAnnotationColumnSlug s = s @ ''-annotations''"

text \<open>\<open>slugify\<close> (\<open>charts/Util\<close>) is a parameter.\<close>

definition columnSpecFromLegacyVariable :: "(string \<Rightarrow> string) \<Rightarrow> OwidVariable \<Rightarrow> ColumnSpec" where
  "columnSpecFromLegacyVariable slugify v =
     \<lparr>slug = string_of_int (var_id v) @ ''-'' @ slugify (var_name v),
      name = Some (var_name v),
      owidVariableId = Some (var_id v),
      isDailyMeasurement = yearIsDay (display v),
      isFilterColumn = False,
      annotationsColumnSlug = None,
      fn = None\<rparr>"

text \<open>
  Modelled from the spec: \<open>diffDateISOStringInDays\<close> (\<open>charts/Util\<close>, not among the
  sources) is the difference of two ISO dates "measured in whole days"; \<open>dayNumber\<close>, a
  parameter, gives the day count of an ISO date string.
\<close>

definition diffDateISOStringInDays :: "(string \<Rightarrow> int) \<Rightarrow> string \<Rightarrow> string \<Rightarrow> int" where
  "diffDateISOStringInDays dayNumber a b = dayNumber a - dayNumber b"

definition convertLegacyYears :: "(string \<Rightarrow> int) \<Rightarrow> string \<Rightarrow> int list \<Rightarrow> string \<Rightarrow> int list" where
  \<comment> \<open>\<open>EPOCH_DATE\<close> (\<open>settings\<close>) is the parameter \<open>epoch\<close>\<close>
  "convertLegacyYears dayNumber epoch ys zd =
     (let diff = diffDateISOStringInDays dayNumber zd epoch in map (\<lambda>y. y + diff) ys)"

definition legacyYears :: "(string \<Rightarrow> int) \<Rightarrow> string \<Rightarrow> OwidVariable \<Rightarrow> int list" where
  \<comment> \<open>the \<open>years\<close> constant of the loop body\<close>
  "legacyYears dayNumber epoch v =
     (let d = display v;
          yearsNeedTransform = (yearIsDay d \<and> zeroDay d \<noteq> None \<and> zeroDay d \<noteq> Some epoch)
      in if yearsNeedTransform then convertLegacyYears dayNumber epoch (var_years v) (the (zeroDay d))
         else var_years v)"

definition int_at :: "int list \<Rightarrow> nat \<Rightarrow> val" where
  "int_at xs i = (if i < length xs then Num (xs ! i) else Undefined)"

definition str_at :: "string list \<Rightarrow> nat \<Rightarrow> val" where
  "str_at xs i = (if i < length xs then Str (xs ! i) else Undefined)"

definition hasAnnotations :: "OwidVariable \<Rightarrow> bool" where
  \<comment> \<open>\<open>if (variable.display.entityAnnotationsMap)\<close>: a non-empty string\<close>
  "hasAnnotations v =
     (case entityAnnotationsMap (display v) of None \<Rightarrow> False | Some a \<Rightarrow> a \<noteq> [])"

definition legacyColumnSpecs ::
  "(string \<Rightarrow> string) \<Rightarrow> (columnSlug \<times> ColumnSpec) list \<Rightarrow> OwidVariable
     \<Rightarrow> (columnSlug \<times> ColumnSpec) list" where
  \<comment> \<open>what one pass of the loop does to \<open>columnSpecs\<close>; the spec object registered under
      \<open>columnSlug\<close> is the one that later receives \<open>annotationsColumnSlug\<close>\<close>
  "legacyColumnSpecs slugify columnSpecs v =
     (let columnSpec = columnSpecFromLegacyVariable slugify v;
          columnSlug = slug columnSpec;
          timeSlug = (if isDailyMeasurement columnSpec then ''day'' else ''year'');
          specs1 = AList.update timeSlug (plainSpec timeSlug) columnSpecs
      in if hasAnnotations v then
           (let annotationsColumnSlug = makeAnnotationColumnSlug columnSlug;
                specs2 = AList.update columnSlug
                           (columnSpec\<lparr>annotationsColumnSlug := Some annotationsColumnSlug\<rparr>) specs1
            in AList.update annotationsColumnSlug (plainSpec annotationsColumnSlug) specs2)
         else AList.update columnSlug columnSpec specs1)"

definition legacyRows ::
  "(string \<Rightarrow> string) \<Rightarrow> (string \<Rightarrow> int) \<Rightarrow> string \<Rightarrow> (int \<times> EntityMeta) list \<Rightarrow> OwidVariable
     \<Rightarrow> error + row list" where
  \<comment> \<open>\<open>newRows\<close> of one pass of the loop; \<open>entityMetaById[id].name\<close> on an unknown id is
      a \<open>TypeError\<close>\<close>
  "legacyRows slugify dayNumber epoch entityMetaById v =
     (if \<exists>id \<in> set (var_entities v). map_of entityMetaById id = None then Inl TypeError
      else
        (let entityNames = map (\<lambda>id. meta_name (the (map_of entityMetaById id))) (var_entities v);
             entityCodes = map (\<lambda>id. meta_code (the (map_of entityMetaById id))) (var_entities v);
             columnSpec = columnSpecFromLegacyVariable slugify v;
             columnSlug = slug columnSpec;
             timeColumnName = (if isDailyMeasurement columnSpec then ''day'' else ''year'');
             ys = legacyYears dayNumber epoch v
         in Inr (map (\<lambda>(index, value).
                   (let entityName = str_at entityNames index;
                        r0 = row_set (row_set (row_set (row_set (row_set []
                               timeColumnName (int_at ys index))
                               columnSlug value)
                               ''entityName'' entityName)
                               ''entityId'' (int_at (var_entities v) index))
                               ''entityCode'' (str_at entityCodes index)
                    in if hasAnnotations v then
                         row_set r0 (makeAnnotationColumnSlug columnSlug)
                           (case entityName of
                              Str n \<Rightarrow>
                                (case map_of (annotationsToMap
                                        (the (entityAnnotationsMap (display v)))) n of
                                   None \<Rightarrow> Undefined | Some a \<Rightarrow> Str a)
                            | _ \<Rightarrow> Undefined)
                       else r0))
                 (enumerate 0 (var_values v)))))"

fun legacyLoop ::
  "(string \<Rightarrow> string) \<Rightarrow> (string \<Rightarrow> int) \<Rightarrow> string \<Rightarrow> (int \<times> EntityMeta) list
     \<Rightarrow> OwidVariable list \<Rightarrow> row list \<Rightarrow> (columnSlug \<times> ColumnSpec) list
     \<Rightarrow> error + (row list \<times> (columnSlug \<times> ColumnSpec) list)" where
  "legacyLoop slugify dayNumber epoch em [] rs columnSpecs = Inr (rs, columnSpecs)"
| "legacyLoop slugify dayNumber epoch em (v # vs) rs columnSpecs =
     (case legacyRows slugify dayNumber epoch em v of
        Inl e \<Rightarrow> Inl e
      | Inr newRows \<Rightarrow>
          legacyLoop slugify dayNumber epoch em vs (rs @ newRows)
            (legacyColumnSpecs slugify columnSpecs v))"

definition groupBy :: "'a list \<Rightarrow> ('a \<Rightarrow> string) \<Rightarrow> (string \<times> 'a list) list" where
  \<comment> \<open>lodash \<open>groupBy\<close>: the groups under their keys, in order of first occurrence\<close>
  "groupBy xs f =
     foldl (\<lambda>m x. AList.update (f x) ((case map_of m (f x) of None \<Rightarrow> [] | Some g \<Rightarrow> g) @ [x]) m)
       [] xs"

definition groupKey :: "row \<Rightarrow> string" where
  "groupKey r =
     (let timePart = (if row_get r ''year'' \<noteq> Undefined
                      then ''year:'' @ to_string (row_get r ''year'')
                      else ''day:'' @ to_string (row_get r ''day''))
      in timePart @ '' '' @ to_string (row_get r ''entityName''))"

definition object_assign :: "row list \<Rightarrow> row" where
  \<comment> \<open>\<open>Object.assign({}, ...rows)\<close>\<close>
  "object_assign rs = foldl (\<lambda>acc r. foldl (\<lambda>acc (k, v). row_set acc k v) acc r) [] rs"

definition identityColumnSpecs :: "(columnSlug \<times> ColumnSpec) list" where
  "identityColumnSpecs =
     AList.update ''entityCode'' (plainSpec ''entityCode'')
       (AList.update ''entityId'' (plainSpec ''entityId'')
          (AList.update ''entityName'' (plainSpec ''entityName'') []))"

definition fromLegacy ::
  "(string \<Rightarrow> string) \<Rightarrow> (string \<Rightarrow> int) \<Rightarrow> string \<Rightarrow> OwidVariablesAndEntityKey
     \<Rightarrow> error + Table" where
  "fromLegacy slugify dayNumber epoch json =
     (case legacyLoop slugify dayNumber epoch (entityKey json) (variables json) []
             identityColumnSpecs of
        Inl e \<Rightarrow> Inl e
      | Inr (rs, columnSpecs) \<Rightarrow>
          (let groupMap = groupBy rs groupKey;
               joinedRows = map (\<lambda>(groupKey, g). object_assign g) groupMap
           in Inr (newTable joinedRows (Some columnSpecs))))"

section \<open>Chart configuration and derived chart data\<close>

datatype AddCountryMode = AddCountry | ChangeCountry | Disabled

record ChartDimension =
  property :: string
  variableId :: int

record EntitySelection =
  entityId :: val
  index :: int
  color :: "string option"

text \<open>
  The persisted properties of a \<open>ChartConfig\<close> that the derivations read, and its table.
  The derived getters of \<open>ChartData\<close> are functions of the chart; a getter that reads the
  table's \<open>unfilteredRows\<close> returns the chart with the table as the read leaves it.
  Each read computes the value anew: the memoization of the getters is not part of the
  model.
\<close>

record ChartConfig =
  dimensions :: "ChartDimension list"
  selectedData :: "EntitySelection list"
  addCountryModeProp :: "AddCountryMode option"
  minPopulationFilter :: "int option"
  table :: Table


text \<open>\<open>populationMap\<close> is a table that is not among the sources: a parameter.\<close>

definition updatePopulationFilter :: "(string \<Rightarrow> int option) \<Rightarrow> ChartConfig \<Rightarrow> ChartConfig" where
  "updatePopulationFilter populationMap c =
     (let s = ''pop_filter''
      in case minPopulationFilter c of
           None \<Rightarrow> c\<lparr>table := deleteColumnBySlug (table c) s\<rparr>
         | Some minPop \<Rightarrow>
             if minPop = 0 then c\<lparr>table := deleteColumnBySlug (table c) s\<rparr>
             else c\<lparr>table := addFilterColumn (table c) s
                    (\<lambda>r. case populationMap (to_string (row_get r ''entityName'')) of
                            None \<Rightarrow> True
                          | Some pop \<Rightarrow> pop = 0 \<or> pop \<ge> minPop)\<rparr>)"

definition set_minPopulationFilter ::
  "(string \<Rightarrow> int option) \<Rightarrow> ChartConfig \<Rightarrow> int option \<Rightarrow> ChartConfig" where
  \<comment> \<open>assigning \<open>props.minPopulationFilter\<close>; the reaction runs when the value changes\<close>
  "set_minPopulationFilter populationMap c v =
     (if v = minPopulationFilter c then c
      else updatePopulationFilter populationMap (c\<lparr>minPopulationFilter := v\<rparr>))"

subsection \<open>Readiness and filled dimensions\<close>

definition columnsByOwidVarId :: "Table \<Rightarrow> (int \<times> AbstractColumn) list" where
  "columnsByOwidVarId t =
     foldl (\<lambda>m (i, c). AList.update (case owidVariableId (spec c) of None \<Rightarrow> int i | Some v \<Rightarrow> v) c m)
       [] (enumerate 0 (columnsAsArray t))"

definition loadingVarIds :: "ChartConfig \<Rightarrow> int list" where
  "loadingVarIds c =
     filter (\<lambda>id. map_of (columnsByOwidVarId (table c)) id = None) (map variableId (dimensions c))"

definition isReady :: "ChartConfig \<Rightarrow> bool" where
  "isReady c = (length (loadingVarIds c) = 0)"

record ChartDimensionWithOwidVariable =
  dim_index :: nat
  props :: ChartDimension
  column :: "AbstractColumn option"

definition filledDimensions :: "ChartConfig \<Rightarrow> ChartDimensionWithOwidVariable list" where
  "filledDimensions c =
     (if \<not> isReady c then []
      else map (\<lambda>(i, dim). \<lparr>dim_index = i, props = dim,
                   column = map_of (columnsByOwidVarId (table c)) (variableId dim)\<rparr>)
             (enumerate 0 (dimensions c)))"

definition primaryDimensions :: "ChartConfig \<Rightarrow> ChartDimensionWithOwidVariable list" where
  "primaryDimensions c = filter (\<lambda>d. property (props d) = ''y'') (filledDimensions c)"

subsection \<open>Entity lookups and column views\<close>

definition map_get :: "(val \<times> val) list \<Rightarrow> val \<Rightarrow> val" where
  \<comment> \<open>\<open>map.get(k)\<close>\<close>
  "map_get m k = (case map_of m k of None \<Rightarrow> Undefined | Some v \<Rightarrow> v)"


definition entityNameToIdMap :: "Table \<Rightarrow> (val \<times> val) list" where
  "entityNameToIdMap t =
     foldl (\<lambda>m r. AList.update (row_get r ''entityName'') (row_get r ''entityId'') m) [] (rows t)"

definition column_rows :: "Table \<Rightarrow> AbstractColumn \<Rightarrow> error + (Table \<times> row list)" where
  \<comment> \<open>\<open>AbstractColumn.rows\<close>\<close>
  "column_rows t col =
     (case unfilteredRows t of
        Inl e \<Rightarrow> Inl e
      | Inr (t', u) \<Rightarrow> Inr (t', filter (\<lambda>r. row_get r (slug (spec col)) \<noteq> Undefined) u))"

definition column_entityNamesUniq :: "Table \<Rightarrow> AbstractColumn \<Rightarrow> error + (Table \<times> val list)" where
  "column_entityNamesUniq t col =
     (case column_rows t col of
        Inl e \<Rightarrow> Inl e
      | Inr (t', rs) \<Rightarrow> Inr (t', set_from (map (\<lambda>r. row_get r ''entityName'') rs)))"

definition entityNamesUniq ::
  "ChartConfig \<Rightarrow> ChartDimensionWithOwidVariable \<Rightarrow> error + (ChartConfig \<times> val list)" where
  \<comment> \<open>\<open>ChartDimensionWithOwidVariable.entityNamesUniq\<close>, on the chart's table\<close>
  "entityNamesUniq c d =
     (case column d of
        None \<Rightarrow> Inl TypeError
      | Some col \<Rightarrow>
          (case column_entityNamesUniq (table c) col of
             Inl e \<Rightarrow> Inl e
           | Inr (t', names) \<Rightarrow> Inr (c\<lparr>table := t'\<rparr>, names)))"

subsection \<open>Keys and selection\<close>

definition makeEntityDimensionKey :: "val \<Rightarrow> int \<Rightarrow> string" where
  "makeEntityDimensionKey entityName dimensionIndex =
     to_string entityName @ ''_'' @ string_of_int dimensionIndex"



definition uniqWith :: "('a \<Rightarrow> 'a \<Rightarrow> bool) \<Rightarrow> 'a list \<Rightarrow> 'a list" where
  \<comment> \<open>lodash \<open>uniqWith\<close>: the first element of every class is kept\<close>
  "uniqWith cmp xs = foldl (\<lambda>acc x. if \<exists>y \<in> set acc. cmp y x then acc else acc @ [x]) [] xs"






text \<open>
  \<open>EntityDimensionInfo\<close> without its presentation strings (\<open>fullLabel\<close>, \<open>label\<close>,
  \<open>shortCode\<close>), which none of the operations below reads.
\<close>

record EntityDimensionInfo =
  info_entity :: val
  info_entityId :: val
  info_dimension :: ChartDimensionWithOwidVariable
  info_index :: nat
  info_key :: string

definition entityDimensionInfo ::
  "Table \<Rightarrow> nat \<Rightarrow> ChartDimensionWithOwidVariable \<Rightarrow> val \<Rightarrow> EntityDimensionInfo" where
  \<comment> \<open>the object stored under the key of \<open>entityName\<close> and \<open>dimensionIndex\<close>\<close>
  "entityDimensionInfo t dimensionIndex dimension entityName =
     \<lparr>info_entity = entityName,
      info_entityId = map_get (entityNameToIdMap t) entityName,
      info_dimension = dimension,
      info_index = dimensionIndex,
      info_key = makeEntityDimensionKey entityName (int dimensionIndex)\<rparr>"

fun entityDimensionLoop ::
  "ChartConfig \<Rightarrow> (nat \<times> ChartDimensionWithOwidVariable) list \<Rightarrow> (string \<times> EntityDimensionInfo) list
     \<Rightarrow> error + (ChartConfig \<times> (string \<times> EntityDimensionInfo) list)" where
  \<comment> \<open>\<open>primaryDimensions.forEach((dimension, dimensionIndex) => ...)\<close>\<close>
  "entityDimensionLoop c [] keyData = Inr (c, keyData)"
| "entityDimensionLoop c ((dimensionIndex, dimension) # rest) keyData =
     (case entityNamesUniq c dimension of
        Inl e \<Rightarrow> Inl e
      | Inr (c', names) \<Rightarrow>
          entityDimensionLoop c' rest
            (foldl (\<lambda>kd entityName.
                      AList.update (makeEntityDimensionKey entityName (int dimensionIndex))
                        (entityDimensionInfo (table c') dimensionIndex dimension entityName) kd)
               keyData names))"

definition entityDimensionMap ::
  "ChartConfig \<Rightarrow> error + (ChartConfig \<times> (string \<times> EntityDimensionInfo) list)" where
  "entityDimensionMap c =
     (if \<not> isReady c then Inr (c, [])
      else entityDimensionLoop c (enumerate 0 (primaryDimensions c)) [])"

definition lookupKey :: "ChartConfig \<Rightarrow> string \<Rightarrow> error + (ChartConfig \<times> EntityDimensionInfo)" where
  "lookupKey c key =
     (case entityDimensionMap c of
        Inl e \<Rightarrow> Inl e
      | Inr (c', m) \<Rightarrow>
          (case map_of m key of
             None \<Rightarrow> Inl (UnknownDataKey key)
           | Some keyDatum \<Rightarrow> Inr (c', keyDatum)))"

definition setKeyColor :: "ChartConfig \<Rightarrow> string \<Rightarrow> string option \<Rightarrow> error + ChartConfig" where
  "setKeyColor c key col =
     (case lookupKey c key of
        Inl e \<Rightarrow> Inl e
      | Inr (c', meta) \<Rightarrow>
          Inr (c'\<lparr>selectedData :=
                 map (\<lambda>d. if entityId d = info_entityId meta \<and> index d = int (info_index meta)
                          then d\<lparr>color := col\<rparr> else d)
                   (selectedData c')\<rparr>))"



section \<open>Notions used in the statements\<close>

subsection \<open>Groups and filters\<close>

text \<open>
  The contiguous groups of a row list under a grouping key: maximal runs of neighbouring
  rows with the same key, in order.
\<close>

fun contiguousGroups :: "(row \<Rightarrow> val) \<Rightarrow> row list \<Rightarrow> row list list" where
  "contiguousGroups key [] = []"
| "contiguousGroups key (r # rs) =
     (case contiguousGroups key rs of
        [] \<Rightarrow> [[r]]
      | [] # gs \<Rightarrow> [r] # gs
      | (r' # g) # gs \<Rightarrow> if key r = key r' then (r # r' # g) # gs else [r] # (r' # g) # gs)"





definition filterColumnOf :: "columnSlug \<Rightarrow> (row \<Rightarrow> bool) \<Rightarrow> AbstractColumn" where
  \<comment> \<open>the column object that \<open>addFilterColumn(s, p)\<close> registers\<close>
  "filterColumnOf s p =
     \<lparr>ctype = BooleanColumn,
      spec = (plainSpec s)\<lparr>isFilterColumn := True, fn := Some (\<lambda>r index. Bool (p r))\<rparr>\<rparr>"

subsection \<open>Charts, keys and the validity rule of the data model\<close>

definition sameProps :: "ChartConfig \<Rightarrow> ChartConfig \<Rightarrow> bool" where
  \<comment> \<open>the two charts differ at most in their table\<close>
  "sameProps c c' =
     (dimensions c' = dimensions c \<and> selectedData c' = selectedData c
      \<and> addCountryModeProp c' = addCountryModeProp c
      \<and> minPopulationFilter c' = minPopulationFilter c)"







subsection \<open>Observations of a legacy variable\<close>

text \<open>
  Observation \<open>j\<close> of a variable is the entity \<open>entities[j]\<close>, the time \<open>years[j]\<close> and
  the value \<open>values[j]\<close>. Its normalised day is the raw day offset plus the whole-day
  difference between the variable's zero day and the epoch (a variable without a zero day
  counts from the epoch); its entity name is the name the entity key gives to its entity.
\<close>

definition normalisedDay :: "(string \<Rightarrow> int) \<Rightarrow> string \<Rightarrow> OwidVariable \<Rightarrow> nat \<Rightarrow> int" where
  "normalisedDay dayNumber epoch v j =
     var_years v ! j
     + (case zeroDay (display v) of
          None \<Rightarrow> 0
        | Some D \<Rightarrow> diffDateISOStringInDays dayNumber D epoch)"

definition observationEntity :: "(int \<times> EntityMeta) list \<Rightarrow> OwidVariable \<Rightarrow> nat \<Rightarrow> string" where
  "observationEntity em v j = meta_name (the (map_of em (var_entities v ! j)))"

text \<open>The arrays of a variable are parallel: one entity and one time for every value.\<close>

definition parallelArrays :: "OwidVariable \<Rightarrow> bool" where
  "parallelArrays v =
     (length (var_entities v) = length (var_values v)
      \<and> length (var_years v) = length (var_values v))"

text \<open>
  The real date of an observation, as a day number: the variable's zero day (the epoch
  for a variable without one) plus the raw day offset.
\<close>

definition observationDate :: "(string \<Rightarrow> int) \<Rightarrow> string \<Rightarrow> OwidVariable \<Rightarrow> nat \<Rightarrow> int" where
  "observationDate dayNumber epoch v j =
     (case zeroDay (display v) of None \<Rightarrow> dayNumber epoch | Some D \<Rightarrow> dayNumber D)
     + var_years v ! j"

text \<open>The variable has no other observation for the entity and the time of observation \<open>j\<close>.\<close>

definition soleObservation :: "(int \<times> EntityMeta) list \<Rightarrow> OwidVariable \<Rightarrow> nat \<Rightarrow> bool" where
  "soleObservation em v j =
     (\<forall>j' \<in> {..<length (var_values v)}.
        observationEntity em v j' = observationEntity em v j
        \<and> var_years v ! j' = var_years v ! j \<longrightarrow> j' = j)"

section \<open>Example inputs\<close>

definition ex_populationMap :: "string \<Rightarrow> int option" where
  "ex_populationMap n = (if n = ''A'' then Some 100 else if n = ''B'' then Some 5 else None)"

definition ex_chart :: ChartConfig where
  "ex_chart = \<lparr>dimensions = [], selectedData = [], addCountryModeProp = None,
     minPopulationFilter = None,
     table = newTable [[(''entityName'', Str ''A'')], [(''entityName'', Str ''B'')]] None\<rparr>"

definition ex_named_table :: Table where
  "ex_named_table =
     \<lparr>rows = [[(''a'', Num 1)]],
      columns = [(''a'', \<lparr>ctype = AnyColumn, spec = (plainSpec ''a'')\<lparr>name := Some ''A''\<rparr>\<rparr>)]\<rparr>"

definition ex_json :: OwidVariablesAndEntityKey where
  "ex_json =
     \<lparr>variables =
        [\<lparr>var_id = 5, var_name = ''cases'', var_entities = [1, 2], var_years = [2000, 2001],
          var_values = [Num 7, Num 8],
          display = \<lparr>yearIsDay = False, zeroDay = None, entityAnnotationsMap = None\<rparr>\<rparr>],
      entityKey = [(1, \<lparr>meta_name = ''A'', meta_code = ''AA''\<rparr>),
                   (2, \<lparr>meta_name = ''B'', meta_code = ''BB''\<rparr>)]\<rparr>"

definition ex_table :: Table where
  "ex_table =
     (case fromLegacy (\<lambda>s. s) (\<lambda>s. 0) ''2020-01-21'' ex_json of
        Inr t \<Rightarrow> t
      | Inl e \<Rightarrow> \<lparr>rows = [], columns = []\<rparr>)"

definition ex_dayNumber :: "string \<Rightarrow> int" where
  "ex_dayNumber s = (if s = ''2020-01-21'' then 18282 else if s = ''2020-01-11'' then 18272 else 0)"

definition ex_daily :: OwidVariable where
  "ex_daily =
     \<lparr>var_id = 6, var_name = ''deaths'', var_entities = [1, 2], var_years = [10, 13],
      var_values = [Num 1, Num 2],
      display = \<lparr>yearIsDay = True, zeroDay = Some ''2020-01-11'', entityAnnotationsMap = None\<rparr>\<rparr>"





text \<open>
  A table with the entities A (id 1) and B (id 2) and one variable, 5, and charts over it
  with a primary dimension for that variable.
\<close>

definition ex_owid_table :: Table where
  "ex_owid_table =
     \<lparr>rows = [[(''year'', Num 2000), (''5-cases'', Num 7), (''entityName'', Str ''A''),
               (''entityId'', Num 1), (''entityCode'', Str ''AA'')],
              [(''year'', Num 2001), (''5-cases'', Num 8), (''entityName'', Str ''B''),
               (''entityId'', Num 2), (''entityCode'', Str ''BB'')]],
      columns = [(''entityName'', \<lparr>ctype = AnyColumn, spec = plainSpec ''entityName''\<rparr>),
                 (''entityId'', \<lparr>ctype = AnyColumn, spec = plainSpec ''entityId''\<rparr>),
                 (''entityCode'', \<lparr>ctype = AnyColumn, spec = plainSpec ''entityCode''\<rparr>),
                 (''year'', \<lparr>ctype = AnyColumn, spec = plainSpec ''year''\<rparr>),
                 (''5-cases'',
                  \<lparr>ctype = AnyColumn,
                   spec = (plainSpec ''5-cases'')\<lparr>name := Some ''cases'',
                            owidVariableId := Some 5\<rparr>\<rparr>)]\<rparr>"

text \<open>
  A chart over \<open>ex_owid_table\<close> (columns \<open>entityName\<close>, \<open>entityId\<close>, \<open>entityCode\<close>,
  \<open>year\<close>, \<open>5-cases\<close>) whose second dimension names variable 3, which was never loaded.
\<close>

definition ex_chart_index :: ChartConfig where
  "ex_chart_index =
     \<lparr>dimensions = [\<lparr>property = ''y'', variableId = 5\<rparr>, \<lparr>property = ''x'', variableId = 3\<rparr>],
      selectedData = [], addCountryModeProp = None, minPopulationFilter = None,
      table = ex_owid_table\<rparr>"

definition ex_selection_chart :: ChartConfig where
  "ex_selection_chart =
     \<lparr>dimensions = [\<lparr>property = ''y'', variableId = 5\<rparr>],
      selectedData = [\<lparr>entityId = Num 1, index = 0, color = Some ''red''\<rparr>,
                      \<lparr>entityId = Num 2, index = 0, color = None\<rparr>,
                      \<lparr>entityId = Num 9, index = 0, color = None\<rparr>,
                      \<lparr>entityId = Num 1, index = 3, color = None\<rparr>],
      addCountryModeProp = None, minPopulationFilter = None, table = ex_owid_table\<rparr>"




text \<open>
  Two daily variables over the same entities whose zero days lie ten days apart. Entity A
  has cases on days 0 and 3, entity B on day 3; the deaths of A fall on raw offset 10 and
  those of B on raw offset 13 of the earlier zero day, the real dates of days 0 and 3.
\<close>

definition ex_cases :: OwidVariable where
  "ex_cases =
     \<lparr>var_id = 5, var_name = ''cases'', var_entities = [1, 1, 2], var_years = [0, 3, 3],
      var_values = [Num 7, Num 8, Num 9],
      display = \<lparr>yearIsDay = True, zeroDay = Some ''2020-01-21'', entityAnnotationsMap = None\<rparr>\<rparr>"

definition ex_daily_json :: OwidVariablesAndEntityKey where
  "ex_daily_json =
     \<lparr>variables = [ex_cases, ex_daily],
      entityKey = [(1, \<lparr>meta_name = ''A'', meta_code = ''AA''\<rparr>),
                   (2, \<lparr>meta_name = ''B'', meta_code = ''BB''\<rparr>)]\<rparr>"

section \<open>Basic facts about rows and collections\<close>

lemma row_get_row_set: "row_get (row_set r k v) k' = (if k' = k then v else row_get r k')"
  by (simp add: row_get_def row_set_def update_conv')

lemma update_subset: "set (AList.update k v al) \<subseteq> insert (k, v) (set al)"
  by (induction al) auto

lemma row_set_subset: "set (row_set r k v) \<subseteq> insert (k, v) (set r)"
  unfolding row_set_def by (rule update_subset)




lemma foldl_update_map_of:
  "map_of (foldl (\<lambda>m (k, v). AList.update k v m) m0 ops) = map_of m0 ++ map_of (rev ops)"
proof (induction ops arbitrary: m0)
  case Nil
  then show ?case by simp
next
  case (Cons p ops)
  obtain k v where p: "p = (k, v)" by (cases p)
  have "map_of (foldl (\<lambda>m (k, v). AList.update k v m) (AList.update k v m0) ops)
        = map_of (AList.update k v m0) ++ map_of (rev ops)"
    by (rule Cons.IH)
  also have "\<dots> = map_of m0 ++ map_of (rev ops @ [(k, v)])"
    by (simp add: update_conv' map_add_def fun_eq_iff split: option.splits)
  finally show ?case by (simp add: p)
qed

lemma map_of_rev_same:
  assumes "(k, v) \<in> set ops" and "\<forall>(k', v') \<in> set ops. k' = k \<longrightarrow> v' = v"
  shows "map_of (rev ops) k = Some v"
proof -
  from assms(1) have "k \<in> fst ` set (rev ops)" by force
  then obtain v' where v': "map_of (rev ops) k = Some v'"
    by (metis map_of_eq_None_iff not_Some_eq)
  then have "(k, v') \<in> set ops" by (auto dest: map_of_SomeD)
  with assms(2) have "v' = v" by auto
  with v' show ?thesis by simp
qed





lemma uniqWith_Nil [simp]: "uniqWith cmp [] = []"
  by (simp add: uniqWith_def)





lemma string_of_nat_digits:
  "string_of_nat n \<noteq> [] \<and> set (string_of_nat n) \<subseteq> set ''0123456789''"
proof (induction n rule: string_of_nat.induct)
  case (1 n)
  have d: "digit k \<in> set ''0123456789''" if "k < 10" for k
    unfolding digit_def using that by (intro nth_mem) simp
  show ?case
  proof (cases "n < 10")
    case True
    then show ?thesis using d [of n] by (subst (1 2) string_of_nat.simps) simp
  next
    case False
    have "n mod 10 < 10" by simp
    from d [OF this] 1 False show ?thesis
      by (subst (1 2) string_of_nat.simps) simp
  qed
qed

lemma string_of_int_hd:
  "string_of_int i \<noteq> [] \<and> hd (string_of_int i) \<in> set ''-0123456789''"
proof -
  have "string_of_nat n \<noteq> [] \<and> hd (string_of_nat n) \<in> set ''0123456789''" for n
    using string_of_nat_digits [of n] hd_in_set [of "string_of_nat n"] by blast
  then show ?thesis
    by (auto simp: string_of_int_def)
qed

lemma digit_inj:
  assumes "a < 10" and "b < 10" and "digit a = digit b"
  shows "a = b"
proof -
  have "distinct ''0123456789''" by simp
  moreover have "a < length ''0123456789''" "b < length ''0123456789''"
    using assms by simp_all
  ultimately show ?thesis
    using assms(3) unfolding digit_def by (simp only: nth_eq_iff_index_eq)
qed

lemma string_of_nat_small: "n < 10 \<Longrightarrow> string_of_nat n = [digit n]"
  by (subst string_of_nat.simps) simp

lemma string_of_nat_large:
  "\<not> n < 10 \<Longrightarrow> string_of_nat n = string_of_nat (n div 10) @ [digit (n mod 10)]"
  by (subst string_of_nat.simps) simp

lemma string_of_nat_inj:
  "string_of_nat m = string_of_nat n \<Longrightarrow> m = n"
proof (induction m arbitrary: n rule: string_of_nat.induct)
  case (1 m)
  have ne: "string_of_nat k \<noteq> []" for k
    using string_of_nat_digits [of k] by simp
  show ?case
  proof (cases "m < 10")
    case m: True
    show ?thesis
    proof (cases "n < 10")
      case True
      with m "1.prems" show ?thesis
        by (simp add: string_of_nat_small digit_inj)
    next
      case False
      with m "1.prems" ne [of "n div 10"] show ?thesis
        by (simp add: string_of_nat_small string_of_nat_large)
    qed
  next
    case m: False
    show ?thesis
    proof (cases "n < 10")
      case True
      with m "1.prems" ne [of "m div 10"] show ?thesis
        by (simp add: string_of_nat_small string_of_nat_large)
    next
      case False
      with m "1.prems" have e: "string_of_nat (m div 10) = string_of_nat (n div 10)"
        and d: "digit (m mod 10) = digit (n mod 10)"
        by (simp_all add: string_of_nat_large)
      from "1.IH" [OF m e] have "m div 10 = n div 10" .
      moreover from d have "m mod 10 = n mod 10"
        by (intro digit_inj) simp_all
      ultimately show ?thesis
        by (metis div_mult_mod_eq)
    qed
  qed
qed


section \<open>Deleting a column\<close>

lemma columns_deleteColumnBySlug: "columns (deleteColumnBySlug t s) = columns t"
  by (simp add: deleteColumnBySlug_def Let_def)

text \<open>
  C2. \<open>deleteColumnBySlug(s)\<close> is claimed to remove the column registered under \<open>s\<close>
  and the field \<open>s\<close> of every row, so that clearing \<open>minPopulationFilter\<close> brings back
  the unfiltered row count. On a chart with the two entities A (population 100) and B
  (population 5), after setting the filter to 50 and then clearing it, the column
  \<open>pop_filter\<close> is still registered and the view still shows one row of the two.
\<close>

theorem deleteColumnBySlug_pop_filter_stays:
  "(let c1 = set_minPopulationFilter ex_populationMap ex_chart (Some 50);
        c2 = set_minPopulationFilter ex_populationMap c1 None
    in map_sum id (\<lambda>(t, u). length u) (unfilteredRows (table ex_chart)) = Inr 2
       \<and> minPopulationFilter c2 = None
       \<and> map fst (columns (table c2)) = [''entityName'', ''pop_filter'']
       \<and> map_sum id (\<lambda>(t, u). length u) (unfilteredRows (table c2)) = Inr 1)"
  by code_simp

section \<open>Grouped rolling averages\<close>

lemma contiguousGroups_nonempty: "rs \<noteq> [] \<Longrightarrow> contiguousGroups key rs \<noteq> []"
  by (cases rs) (auto split: list.splits)

lemma contiguousGroups_single:
  assumes "cur \<noteq> []" and "\<forall>r \<in> set cur. key r = g"
  shows "contiguousGroups key cur = [cur]"
  using assms
proof (induction cur)
  case Nil
  then show ?case by simp
next
  case (Cons r cur)
  show ?case
  proof (cases cur)
    case Nil
    then show ?thesis by simp
  next
    case (Cons r' cur')
    with Cons.IH Cons.prems have "contiguousGroups key cur = [r' # cur']" by simp
    with Cons.prems Cons show ?thesis by simp
  qed
qed

lemma contiguousGroups_hd:
  "contiguousGroups key (r # rs) = g # gs \<Longrightarrow> \<exists>g'. g = r # g'"
  by (auto split: list.splits if_splits)

lemma contiguousGroups_boundary:
  assumes "cur \<noteq> []" and "\<forall>x \<in> set cur. key x = g" and "key r \<noteq> g"
  shows "contiguousGroups key (cur @ r # rest) = cur # contiguousGroups key (r # rest)"
  using assms(1,2)
proof (induction cur)
  case Nil
  then show ?case by simp
next
  case (Cons x cur)
  from contiguousGroups_nonempty [of "r # rest" key] obtain h hs where
    h: "contiguousGroups key (r # rest) = h # hs" by (cases "contiguousGroups key (r # rest)") auto
  from contiguousGroups_hd [OF h] obtain h' where h': "h = r # h'" by blast
  show ?case
  proof (cases cur)
    case Nil
    with Cons.prems assms(3) h h' show ?thesis by simp
  next
    case (Cons y cur')
    with Cons.IH Cons.prems
    have "contiguousGroups key (cur @ r # rest) = (y # cur') # contiguousGroups key (r # rest)"
      by simp
    with Cons.prems Cons show ?thesis by simp
  qed
qed

lemma groupLoop_all_but_last:
  assumes "cur \<noteq> []" and "\<forall>x \<in> set cur. row_get x groupColName = g"
  shows "groupLoop cra imvp valueAccessor groupColName dateColName w rest g cur groups
         = groups @ map (\<lambda>rs. filter (\<lambda>v. v \<noteq> Null)
                             (cra (imvp (map valueAccessor rs)
                                        (map (\<lambda>r. row_get r dateColName) rs)) w))
                      (butlast (contiguousGroups (\<lambda>r. row_get r groupColName) (cur @ rest)))"
  using assms
proof (induction rest arbitrary: g cur groups)
  case Nil
  then show ?case
    by (simp add: contiguousGroups_single [of cur "\<lambda>r. row_get r groupColName" g])
next
  case (Cons r rest)
  let ?key = "\<lambda>r. row_get r groupColName"
  show ?case
  proof (cases "?key r = g")
    case True
    have "cur @ [r] \<noteq> []" by simp
    moreover have "\<forall>x \<in> set (cur @ [r]). ?key x = g" using Cons.prems(2) True by simp
    ultimately show ?thesis
      using Cons.IH [of "cur @ [r]" g groups] True by simp
  next
    case False
    have b: "contiguousGroups ?key (cur @ r # rest) = cur # contiguousGroups ?key (r # rest)"
      using Cons.prems False by (intro contiguousGroups_boundary) auto
    have ne: "contiguousGroups ?key (r # rest) \<noteq> []"
      by (rule contiguousGroups_nonempty) simp
    have "[r] \<noteq> []" by simp
    moreover have "\<forall>x \<in> set [r]. ?key x = ?key r" by simp
    ultimately have "groupLoop cra imvp valueAccessor groupColName dateColName w rest (?key r) [r]
            (groups @ [filter (\<lambda>v. v \<noteq> Null)
                             (cra (imvp (map valueAccessor cur)
                                        (map (\<lambda>r. row_get r dateColName) cur)) w)])
          = (groups @ [filter (\<lambda>v. v \<noteq> Null)
                             (cra (imvp (map valueAccessor cur)
                                        (map (\<lambda>r. row_get r dateColName) cur)) w)])
            @ map (\<lambda>rs. filter (\<lambda>v. v \<noteq> Null)
                             (cra (imvp (map valueAccessor rs)
                                        (map (\<lambda>r. row_get r dateColName) rs)) w))
                (butlast (contiguousGroups ?key ([r] @ rest)))"
      by (rule Cons.IH)
    then show ?thesis using False ne by (simp add: b Let_def)
  qed
qed

text \<open>
  What the loop returns on a non-empty row list: the averages of every contiguous group
  except the last one, whose rows are collected and then dropped when the loop ends.
\<close>

lemma computeRollingAveragesForEachGroup_all_but_last:
  assumes "rs \<noteq> []"
  shows "computeRollingAveragesForEachGroup cra imvp rs valueAccessor groupColName dateColName w
         = Inr (concat (map (\<lambda>g. filter (\<lambda>v. v \<noteq> Null)
                                   (cra (imvp (map valueAccessor g)
                                              (map (\<lambda>r. row_get r dateColName) g)) w))
                          (butlast (contiguousGroups (\<lambda>r. row_get r groupColName) rs))))"
proof -
  from assms obtain r0 rest where rs: "rs = r0 # rest" by (cases rs) auto
  have "[r0] \<noteq> []" by simp
  moreover have "\<forall>x \<in> set [r0]. row_get x groupColName = row_get r0 groupColName" by simp
  ultimately have "groupLoop cra imvp valueAccessor groupColName dateColName w rest
                     (row_get r0 groupColName) [r0] []
         = [] @ map (\<lambda>g. filter (\<lambda>v. v \<noteq> Null)
                                   (cra (imvp (map valueAccessor g)
                                              (map (\<lambda>r. row_get r dateColName) g)) w))
                          (butlast (contiguousGroups (\<lambda>r. row_get r groupColName) ([r0] @ rest)))"
    by (rule groupLoop_all_but_last)
  then show ?thesis
    by (simp add: computeRollingAveragesForEachGroup_def rs)
qed

text \<open>
  C3. Every group, the last one included, is claimed to contribute its averages. For two
  rows in the groups A and B, whatever the averaging functions are, the result holds the
  averages of group A only: the rows of the last group are collected and never averaged.
\<close>

theorem computeRollingAveragesForEachGroup_drops_last_group:
  "computeRollingAveragesForEachGroup cra imvp
     [[(''entity'', Str ''A''), (''day'', Num 0), (''v'', Num 1)],
      [(''entity'', Str ''B''), (''day'', Num 0), (''v'', Num 2)]]
     (\<lambda>r. row_get r ''v'') ''entity'' ''day'' w
   = Inr (filter (\<lambda>v. v \<noteq> Null) (cra (imvp [Num 1] [Num 0]) w))"
  by (simp add: computeRollingAveragesForEachGroup_def row_get_def)

section \<open>Delimited export\<close>

text \<open>
  C8. Each cell is claimed to hold the row's value for its column. A column with slug
  \<open>a\<close> and display name \<open>A\<close> has the value 1 in the only row, yet the export is the
  header line alone: the cell is read under the name \<open>A\<close>, where the row has nothing.
\<close>

theorem toDelimited_named_column_empty_cell:
  "toDelimited ex_named_table None None = ''A'' @ [CHR 0x0A]
   \<and> map (\<lambda>r. row_get r ''a'') (rows ex_named_table) = [Num 1]"
  by code_simp

section \<open>The unfiltered-row view\<close>



lemma table_rows_same: "t\<lparr>rows := rows t\<rparr> = (t::Table)"
  by simp




lemma filterColumnOf_simps [simp]:
  "isFilterColumn (spec (filterColumnOf s p))"
  "col_slug (filterColumnOf s p) = s"
  "fn (spec (filterColumnOf s p)) = Some (\<lambda>r index. Bool (p r))"
  by (simp_all add: filterColumnOf_def col_slug_def plainSpec_def)















section \<open>Legacy ingestion\<close>

lemma legacyLoop_specs:
  "legacyLoop slugify dayNumber epoch em vs rs specs = Inr (rs', specs')
   \<Longrightarrow> specs' = foldl (legacyColumnSpecs slugify) specs vs"
proof (induction vs arbitrary: rs specs)
  case Nil
  then show ?case by simp
next
  case (Cons v vs)
  then show ?case by (auto split: sum.splits)
qed

lemma keys_legacyColumnSpecs:
  "fst ` set (legacyColumnSpecs slugify specs v)
   = fst ` set specs
     \<union> {if yearIsDay (display v) then ''day'' else ''year'',
         slug (columnSpecFromLegacyVariable slugify v)}
     \<union> (if hasAnnotations v
        then {makeAnnotationColumnSlug (slug (columnSpecFromLegacyVariable slugify v))}
        else {})"
proof -
  have d: "isDailyMeasurement (columnSpecFromLegacyVariable slugify v) = yearIsDay (display v)"
    by (simp add: columnSpecFromLegacyVariable_def)
  show ?thesis
    by (auto simp: legacyColumnSpecs_def Let_def dom_update d)
qed

lemma keys_foldl_legacyColumnSpecs:
  "fst ` set (foldl (legacyColumnSpecs slugify) specs vs)
   = fst ` set specs
     \<union> (\<Union>v \<in> set vs.
          {if yearIsDay (display v) then ''day'' else ''year'',
           slug (columnSpecFromLegacyVariable slugify v)}
          \<union> (if hasAnnotations v
             then {makeAnnotationColumnSlug (slug (columnSpecFromLegacyVariable slugify v))}
             else {}))"
proof (induction vs arbitrary: specs)
  case Nil
  then show ?case by simp
next
  case (Cons v vs)
  show ?case
    unfolding foldl_Cons Cons.IH keys_legacyColumnSpecs by auto
qed

lemma keys_newTable_columns:
  "fst ` set (foldl (\<lambda>cols (s, sp). AList.update s \<lparr>ctype = AnyColumn, spec = sp\<rparr> cols) acc specs)
   = fst ` set acc \<union> fst ` set specs"
proof (induction specs arbitrary: acc)
  case Nil
  then show ?case by simp
next
  case (Cons p specs)
  obtain s sp where p: "p = (s, sp)" by (cases p)
  show ?case
    unfolding foldl_Cons Cons.IH p by (auto simp: dom_update)
qed

lemma keys_identityColumnSpecs:
  "fst ` set identityColumnSpecs = {''entityName'', ''entityId'', ''entityCode''}"
  by (auto simp: identityColumnSpecs_def)

text \<open>
  C9. For an empty \<open>variables\<close> mapping \<open>fromLegacy\<close> returns the table with no rows
  and exactly the three identity columns. In general the registry of the returned table
  holds the identity columns and, for each variable, its time column, its value column
  and, only when the variable has an \<open>entityAnnotationsMap\<close>, its annotations column:
  a variable without one contributes no annotations column.
\<close>

theorem fromLegacy_registry:
  "fromLegacy slugify dayNumber epoch \<lparr>variables = [], entityKey = em\<rparr>
     = Inr \<lparr>rows = [],
            columns = [(''entityName'', \<lparr>ctype = AnyColumn, spec = plainSpec ''entityName''\<rparr>),
                       (''entityId'', \<lparr>ctype = AnyColumn, spec = plainSpec ''entityId''\<rparr>),
                       (''entityCode'', \<lparr>ctype = AnyColumn, spec = plainSpec ''entityCode''\<rparr>)]\<rparr>
   \<and> (fromLegacy slugify dayNumber epoch json = Inr t \<longrightarrow>
        fst ` set (columns t)
        = {''entityName'', ''entityId'', ''entityCode''}
          \<union> (\<Union>v \<in> set (variables json).
               {if yearIsDay (display v) then ''day'' else ''year'',
                slug (columnSpecFromLegacyVariable slugify v)}
               \<union> (if hasAnnotations v
                  then {makeAnnotationColumnSlug (slug (columnSpecFromLegacyVariable slugify v))}
                  else {})))"
proof (intro conjI impI)
  show "fromLegacy slugify dayNumber epoch \<lparr>variables = [], entityKey = em\<rparr>
     = Inr \<lparr>rows = [],
            columns = [(''entityName'', \<lparr>ctype = AnyColumn, spec = plainSpec ''entityName''\<rparr>),
                       (''entityId'', \<lparr>ctype = AnyColumn, spec = plainSpec ''entityId''\<rparr>),
                       (''entityCode'', \<lparr>ctype = AnyColumn, spec = plainSpec ''entityCode''\<rparr>)]\<rparr>"
    by (simp add: fromLegacy_def identityColumnSpecs_def groupBy_def newTable_def)
next
  assume a: "fromLegacy slugify dayNumber epoch json = Inr t"
  then obtain rs specs where
    l: "legacyLoop slugify dayNumber epoch (entityKey json) (variables json) [] identityColumnSpecs
          = Inr (rs, specs)"
    by (auto simp: fromLegacy_def split: sum.splits)
  with a have "columns t
      = foldl (\<lambda>cols (s, sp). AList.update s \<lparr>ctype = AnyColumn, spec = sp\<rparr> cols) [] specs"
    by (auto simp: fromLegacy_def newTable_def Let_def)
  then have "fst ` set (columns t) = fst ` set specs"
    by (simp add: keys_newTable_columns)
  also have "specs = foldl (legacyColumnSpecs slugify) identityColumnSpecs (variables json)"
    using legacyLoop_specs [OF l] .
  finally show "fst ` set (columns t)
        = {''entityName'', ''entityId'', ''entityCode''}
          \<union> (\<Union>v \<in> set (variables json).
               {if yearIsDay (display v) then ''day'' else ''year'',
                slug (columnSpecFromLegacyVariable slugify v)}
               \<union> (if hasAnnotations v
                  then {makeAnnotationColumnSlug (slug (columnSpecFromLegacyVariable slugify v))}
                  else {}))"
    by (simp only: keys_foldl_legacyColumnSpecs keys_identityColumnSpecs)
qed

lemma string_of_int_5: "string_of_int 5 = ''5''"
  by code_simp

theorem fromLegacy_registry_witness:
  "fromLegacy (\<lambda>s. s) (\<lambda>s. 0) ''2020-01-21'' ex_json = Inr ex_table
   \<and> fst ` set (columns ex_table)
       = {''entityName'', ''entityId'', ''entityCode'', ''year'', ''5-cases''}"
proof -
  have "\<not> isl (fromLegacy (\<lambda>s. s) (\<lambda>s. 0) ''2020-01-21'' ex_json)"
    by code_simp
  then have eq: "fromLegacy (\<lambda>s. s) (\<lambda>s. 0) ''2020-01-21'' ex_json = Inr ex_table"
    by (cases "fromLegacy (\<lambda>s. s) (\<lambda>s. 0) ''2020-01-21'' ex_json") (auto simp: ex_table_def)
  have "fst ` set (columns ex_table)
        = {''entityName'', ''entityId'', ''entityCode''}
          \<union> (\<Union>v \<in> set (variables ex_json).
               {if yearIsDay (display v) then ''day'' else ''year'',
                slug (columnSpecFromLegacyVariable (\<lambda>s. s) v)}
               \<union> (if hasAnnotations v
                  then {makeAnnotationColumnSlug (slug (columnSpecFromLegacyVariable (\<lambda>s. s) v))}
                  else {}))"
    using fromLegacy_registry [of "\<lambda>s. s" "\<lambda>s. 0" "''2020-01-21''" _ ex_json ex_table] eq
    by blast
  then have "fst ` set (columns ex_table)
       = {''entityName'', ''entityId'', ''entityCode'', ''year'', ''5-cases''}"
    by (simp add: ex_json_def columnSpecFromLegacyVariable_def hasAnnotations_def
        string_of_int_5 insert_commute)
  with eq show ?thesis by simp
qed

lemma legacy_slug_hd:
  "hd (slug (columnSpecFromLegacyVariable slugify v)) \<in> set ''-0123456789''"
  using string_of_int_hd [of "var_id v"]
  by (simp add: columnSpecFromLegacyVariable_def)

lemma legacyYears_daily:
  assumes "yearIsDay (display v)" "zeroDay (display v) = Some D"
  shows "legacyYears dayNumber epoch v
         = map (\<lambda>y. y + diffDateISOStringInDays dayNumber D epoch) (var_years v)"
  using assms
  by (simp add: legacyYears_def convertLegacyYears_def diffDateISOStringInDays_def Let_def)

lemma map_of_object_assign:
  "map_of (object_assign g) = map_of (rev (concat g))"
proof -
  have "foldl (\<lambda>acc r. foldl (\<lambda>acc (k, v). row_set acc k v) acc r) acc g
        = foldl (\<lambda>acc (k, v). row_set acc k v) acc (concat g)" for acc
    by (induction g arbitrary: acc) simp_all
  then have "object_assign g = foldl (\<lambda>m (k, v). AList.update k v m) [] (concat g)"
    by (simp add: object_assign_def row_set_def)
  then show ?thesis by (simp add: foldl_update_map_of)
qed

lemma object_assign_field:
  assumes "row_get (object_assign g) k \<noteq> Undefined"
  shows "\<exists>r \<in> set g. (k, row_get (object_assign g) k) \<in> set r"
proof -
  from assms obtain v where v: "map_of (object_assign g) k = Some v"
    by (cases "map_of (object_assign g) k") (auto simp: row_get_def)
  then have "map_of (rev (concat g)) k = Some v" by (simp only: map_of_object_assign)
  then have "(k, v) \<in> set (rev (concat g))" by (rule map_of_SomeD)
  then obtain r where "r \<in> set g" "(k, v) \<in> set r" by auto
  moreover from v have "row_get (object_assign g) k = v" by (simp add: row_get_def)
  ultimately show ?thesis by blast
qed

lemma groupBy_snoc:
  "groupBy (xs @ [x]) f
   = AList.update (f x) ((case map_of (groupBy xs f) (f x) of None \<Rightarrow> [] | Some g \<Rightarrow> g) @ [x])
       (groupBy xs f)"
  by (simp add: groupBy_def)

lemma groupBy_members:
  "(k, g) \<in> set (groupBy xs f) \<Longrightarrow> set g \<subseteq> set xs"
proof (induction xs arbitrary: k g rule: rev_induct)
  case Nil
  then show ?case by (simp add: groupBy_def)
next
  case (snoc x xs)
  let ?old = "case map_of (groupBy xs f) (f x) of None \<Rightarrow> [] | Some g \<Rightarrow> g"
  from snoc.prems update_subset [of "f x" "?old @ [x]" "groupBy xs f"]
  have "(k, g) = (f x, ?old @ [x]) \<or> (k, g) \<in> set (groupBy xs f)"
    unfolding groupBy_snoc by blast
  then show ?case
  proof
    assume e: "(k, g) = (f x, ?old @ [x])"
    have "set ?old \<subseteq> set xs"
    proof (cases "map_of (groupBy xs f) (f x)")
      case None
      then show ?thesis by simp
    next
      case (Some h)
      then have "(f x, h) \<in> set (groupBy xs f)" by (rule map_of_SomeD)
      from snoc.IH [OF this] Some show ?thesis by simp
    qed
    with e show ?thesis by auto
  next
    assume "(k, g) \<in> set (groupBy xs f)"
    from snoc.IH [OF this] show ?thesis by auto
  qed
qed

lemma legacyLoop_rows:
  assumes "legacyLoop slugify dayNumber epoch em vs rs specs = Inr (rs', specs')"
    and "r \<in> set rs'"
  shows "r \<in> set rs
         \<or> (\<exists>v \<in> set vs. \<exists>nr. legacyRows slugify dayNumber epoch em v = Inr nr \<and> r \<in> set nr)"
  using assms
proof (induction vs arbitrary: rs specs)
  case Nil
  then show ?case by simp
next
  case (Cons v vs)
  from Cons.prems(1) obtain nr where nr: "legacyRows slugify dayNumber epoch em v = Inr nr"
    by (cases "legacyRows slugify dayNumber epoch em v") auto
  with Cons.prems(1) have "legacyLoop slugify dayNumber epoch em vs (rs @ nr)
           (legacyColumnSpecs slugify specs v) = Inr (rs', specs')"
    by simp
  from Cons.IH [OF this Cons.prems(2)] nr show ?case by auto
qed

lemma legacy_slug_not_fixed:
  "slug (columnSpecFromLegacyVariable slugify v) \<notin> {''day'', ''entityName'', ''entityId'', ''entityCode''}"
  "makeAnnotationColumnSlug (slug (columnSpecFromLegacyVariable slugify v))
     \<notin> {''day'', ''entityName'', ''entityId'', ''entityCode''}"
proof -
  let ?s = "slug (columnSpecFromLegacyVariable slugify v)"
  have ne: "?s \<noteq> []" using string_of_int_hd [of "var_id v"]
    by (simp add: columnSpecFromLegacyVariable_def)
  have h: "hd ?s \<noteq> CHR ''d''" "hd ?s \<noteq> CHR ''e''" using legacy_slug_hd [of slugify v] by auto
  then show "?s \<notin> {''day'', ''entityName'', ''entityId'', ''entityCode''}" by auto
  have "hd (makeAnnotationColumnSlug ?s) = hd ?s" using ne
    by (simp add: makeAnnotationColumnSlug_def)
  with h show "makeAnnotationColumnSlug ?s \<notin> {''day'', ''entityName'', ''entityId'', ''entityCode''}"
    by auto
qed

lemma legacyRows_day:
  assumes "legacyRows slugify dayNumber epoch em v = Inr nr" and "r \<in> set nr"
    and "(''day'', x) \<in> set r"
  shows "yearIsDay (display v)
         \<and> (\<exists>i < length (var_values v). x = int_at (legacyYears dayNumber epoch v) i)"
proof -
  let ?sp = "columnSpecFromLegacyVariable slugify v"
  let ?t = "if isDailyMeasurement ?sp then ''day'' else ''year''"
  let ?names = "map (\<lambda>id. meta_name (the (map_of em id))) (var_entities v)"
  let ?codes = "map (\<lambda>id. meta_code (the (map_of em id))) (var_entities v)"
  let ?r0 = "\<lambda>index value. row_set (row_set (row_set (row_set (row_set []
                               ?t (int_at (legacyYears dayNumber epoch v) index))
                               (slug ?sp) value)
                               ''entityName'' (str_at ?names index))
                               ''entityId'' (int_at (var_entities v) index))
                               ''entityCode'' (str_at ?codes index)"
  from assms(1) have ok: "\<not> (\<exists>id \<in> set (var_entities v). map_of em id = None)"
    by (auto simp: legacyRows_def split: if_splits)
  let ?ann = "\<lambda>index. case str_at ?names index of
                              Str n \<Rightarrow>
                                (case map_of (annotationsToMap
                                        (the (entityAnnotationsMap (display v)))) n of
                                   None \<Rightarrow> Undefined | Some a \<Rightarrow> Str a)
                            | _ \<Rightarrow> Undefined"
  let ?row = "\<lambda>(index, value). if hasAnnotations v
                 then row_set (?r0 index value) (makeAnnotationColumnSlug (slug ?sp)) (?ann index)
                 else ?r0 index value"
  from assms(1) ok have "nr = map ?row (enumerate 0 (var_values v))"
    by (simp add: legacyRows_def Let_def)
  with assms(2) obtain p where p: "p \<in> set (enumerate 0 (var_values v))" "r = ?row p"
    by auto
  obtain i w where iw: "p = (i, w)" by (cases p)
  from p(1) have iv: "(i, w) \<in> set (enumerate 0 (var_values v))" by (simp add: iw)
  from p(2) have r: "r = ?r0 i w \<or> (\<exists>a. r = row_set (?r0 i w) (makeAnnotationColumnSlug (slug ?sp)) a)"
    unfolding iw by (cases "hasAnnotations v") auto
  from iv have i: "i < length (var_values v)" by (simp add: in_set_enumerate_eq)
  have base: "(''day'', x) \<in> set (?r0 i w)"
  proof -
    from r show ?thesis
    proof
      assume "r = ?r0 i w"
      with assms(3) show ?thesis by simp
    next
      assume "\<exists>a. r = row_set (?r0 i w) (makeAnnotationColumnSlug (slug ?sp)) a"
      then obtain a where "r = row_set (?r0 i w) (makeAnnotationColumnSlug (slug ?sp)) a"
        by blast
      with assms(3) row_set_subset [of "?r0 i w" "makeAnnotationColumnSlug (slug ?sp)" a]
      have "(''day'', x) = (makeAnnotationColumnSlug (slug ?sp), a) \<or> (''day'', x) \<in> set (?r0 i w)"
        by blast
      with legacy_slug_not_fixed(2) [of slugify v] show ?thesis by auto
    qed
  qed
  let ?a = "row_set [] ?t (int_at (legacyYears dayNumber epoch v) i)"
  let ?b = "row_set ?a (slug ?sp) w"
  let ?c = "row_set ?b ''entityName'' (str_at ?names i)"
  let ?d = "row_set ?c ''entityId'' (int_at (var_entities v) i)"
  from base row_set_subset [of ?d "''entityCode''" "str_at ?codes i"]
  have "(''day'', x) \<in> set ?d" by auto
  with row_set_subset [of ?c "''entityId''" "int_at (var_entities v) i"]
  have "(''day'', x) \<in> set ?c" by auto
  with row_set_subset [of ?b "''entityName''" "str_at ?names i"]
  have "(''day'', x) \<in> set ?b" by auto
  with row_set_subset [of ?a "slug ?sp" w] legacy_slug_not_fixed(1) [of slugify v]
  have "(''day'', x) \<in> set ?a" by auto
  then have "?t = ''day''" and "x = int_at (legacyYears dayNumber epoch v) i"
    by (auto simp: row_set_def split: if_splits)
  then have "yearIsDay (display v)"
    by (auto simp: columnSpecFromLegacyVariable_def split: if_splits)
  with i \<open>x = int_at (legacyYears dayNumber epoch v) i\<close> show ?thesis by blast
qed

lemma fromLegacy_rows_day:
  assumes "fromLegacy slugify dayNumber epoch json = Inr t" and "r \<in> set (rows t)"
    and "row_get r ''day'' \<noteq> Undefined"
  shows "\<exists>v \<in> set (variables json). yearIsDay (display v)
           \<and> (\<exists>i < length (var_values v).
                 row_get r ''day'' = int_at (legacyYears dayNumber epoch v) i)"
proof -
  from assms(1) obtain rs specs where
    l: "legacyLoop slugify dayNumber epoch (entityKey json) (variables json) [] identityColumnSpecs
          = Inr (rs, specs)"
    by (auto simp: fromLegacy_def split: sum.splits)
  with assms(1) have "rows t = map (\<lambda>(groupKey, g). object_assign g) (groupBy rs groupKey)"
    by (auto simp: fromLegacy_def newTable_def Let_def)
  with assms(2) obtain k g where kg: "(k, g) \<in> set (groupBy rs groupKey)" and r: "r = object_assign g"
    by auto
  from object_assign_field [of g "''day''"] assms(3) r obtain r1 where
    r1: "r1 \<in> set g" "(''day'', row_get r ''day'') \<in> set r1" by auto
  from groupBy_members [OF kg] r1(1) have "r1 \<in> set rs" by blast
  from legacyLoop_rows [OF l this] obtain v nr where
    v: "v \<in> set (variables json)" "legacyRows slugify dayNumber epoch (entityKey json) v = Inr nr"
      "r1 \<in> set nr"
    by auto
  from legacyRows_day [OF v(2,3) r1(2)] v(1) show ?thesis by blast
qed

lemma legacyYears_nth:
  assumes "yearIsDay (display v)"
  shows "length (legacyYears dayNumber epoch v) = length (var_years v)
         \<and> (\<forall>j < length (var_years v).
               legacyYears dayNumber epoch v ! j
               = var_years v ! j
                 + (case zeroDay (display v) of
                      None \<Rightarrow> 0
                    | Some D \<Rightarrow> diffDateISOStringInDays dayNumber D epoch))"
  using assms
  by (cases "zeroDay (display v)")
    (auto simp: legacyYears_def convertLegacyYears_def diffDateISOStringInDays_def Let_def)

lemma first_separator:
  assumes "xs @ c # ys = xs' @ c # ys'" and "c \<notin> set xs" and "c \<notin> set xs'"
  shows "xs = xs' \<and> ys = ys'"
proof -
  have t: "takeWhile (\<lambda>x. x \<noteq> c) (zs @ c # ws) = zs" if "c \<notin> set zs" for zs ws
    using that by (induction zs) auto
  have "xs = takeWhile (\<lambda>x. x \<noteq> c) (xs @ c # ys)"
    by (rule t [OF assms(2), symmetric])
  moreover have "xs' = takeWhile (\<lambda>x. x \<noteq> c) (xs' @ c # ys')"
    by (rule t [OF assms(3), symmetric])
  ultimately have "xs = xs'" by (simp only: assms(1))
  with assms(1) show ?thesis by simp
qed

lemma string_of_int_chars: "set (string_of_int i) \<subseteq> set ''-0123456789''"
proof -
  have "set (string_of_nat n) \<subseteq> set ''-0123456789''" for n
  proof -
    have "set ''0123456789'' \<subseteq> set ''-0123456789''" by (simp add: subset_insertI2)
    with string_of_nat_digits [of n] show ?thesis by (meson subset_trans)
  qed
  then show ?thesis by (simp add: string_of_int_def)
qed

lemma string_of_nat_no_minus: "CHR ''-'' \<notin> set (string_of_nat n)"
  using string_of_nat_digits [of n] by auto

lemma string_of_int_inj:
  assumes "string_of_int a = string_of_int b"
  shows "a = b"
proof -
  have hd: "hd (string_of_nat n) \<noteq> CHR ''-''" for n
    using string_of_nat_digits [of n] hd_in_set [of "string_of_nat n"]
      string_of_nat_no_minus [of n] by metis
  show ?thesis
  proof (cases "a < 0")
    case a: True
    show ?thesis
    proof (cases "b < 0")
      case True
      with a assms have "string_of_nat (nat (- a)) = string_of_nat (nat (- b))"
        by (simp add: string_of_int_def)
      then have "nat (- a) = nat (- b)" by (rule string_of_nat_inj)
      with a True show ?thesis by simp
    next
      case False
      with a assms have "CHR ''-'' # string_of_nat (nat (- a)) = string_of_nat (nat b)"
        by (simp add: string_of_int_def)
      then have "hd (string_of_nat (nat b)) = CHR ''-''" by (metis list.sel(1))
      with hd show ?thesis by blast
    qed
  next
    case a: False
    show ?thesis
    proof (cases "b < 0")
      case True
      with a assms have "string_of_nat (nat a) = CHR ''-'' # string_of_nat (nat (- b))"
        by (simp add: string_of_int_def)
      then have "hd (string_of_nat (nat a)) = CHR ''-''" by simp
      with hd show ?thesis by blast
    next
      case False
      with a assms have "string_of_nat (nat a) = string_of_nat (nat b)"
        by (simp add: string_of_int_def)
      then have "nat a = nat b" by (rule string_of_nat_inj)
      with a False show ?thesis by simp
    qed
  qed
qed

lemma int_prefix_inj:
  assumes "string_of_int a @ CHR ''-'' # x = string_of_int b @ CHR ''-'' # y"
  shows "a = b"
proof -
  have nat_case: "m = n"
    if "string_of_nat m @ CHR ''-'' # x' = string_of_nat n @ CHR ''-'' # y'" for m n x' y'
  proof -
    from first_separator [OF that string_of_nat_no_minus string_of_nat_no_minus]
    have "string_of_nat m = string_of_nat n" by simp
    then show ?thesis by (rule string_of_nat_inj)
  qed
  have hd: "hd (string_of_nat n @ zs) \<noteq> CHR ''-''" for n zs
    using string_of_nat_digits [of n] hd_in_set [of "string_of_nat n"]
      string_of_nat_no_minus [of n] by (metis hd_append2)
  show ?thesis
  proof (cases "a < 0")
    case a: True
    show ?thesis
    proof (cases "b < 0")
      case True
      with a assms have "string_of_nat (nat (- a)) @ CHR ''-'' # x
                         = string_of_nat (nat (- b)) @ CHR ''-'' # y"
        by (simp add: string_of_int_def)
      then have "nat (- a) = nat (- b)" by (rule nat_case)
      with a True show ?thesis by simp
    next
      case False
      with a assms have "CHR ''-'' # string_of_nat (nat (- a)) @ CHR ''-'' # x
                         = string_of_nat (nat b) @ CHR ''-'' # y"
        by (simp add: string_of_int_def)
      then have "hd (string_of_nat (nat b) @ CHR ''-'' # y) = CHR ''-''" by (metis list.sel(1))
      with hd show ?thesis by blast
    qed
  next
    case a: False
    show ?thesis
    proof (cases "b < 0")
      case True
      with a assms have "string_of_nat (nat a) @ CHR ''-'' # x
                         = CHR ''-'' # string_of_nat (nat (- b)) @ CHR ''-'' # y"
        by (simp add: string_of_int_def)
      then have "hd (string_of_nat (nat a) @ CHR ''-'' # x) = CHR ''-''" by simp
      with hd show ?thesis by blast
    next
      case False
      with a assms have "string_of_nat (nat a) @ CHR ''-'' # x
                         = string_of_nat (nat b) @ CHR ''-'' # y"
        by (simp add: string_of_int_def)
      then have "nat a = nat b" by (rule nat_case)
      with a False show ?thesis by simp
    qed
  qed
qed

lemma groupBy_map_of:
  "map_of (groupBy xs f) k
   = (if k \<in> f ` set xs then Some (filter (\<lambda>x. f x = k) xs) else None)"
proof (induction xs arbitrary: k rule: rev_induct)
  case Nil
  then show ?case by (simp add: groupBy_def)
next
  case (snoc x xs)
  have old: "(case map_of (groupBy xs f) (f x) of None \<Rightarrow> [] | Some g \<Rightarrow> g)
             = filter (\<lambda>y. f y = f x) xs"
  proof (cases "f x \<in> f ` set xs")
    case True
    then show ?thesis by (simp add: snoc.IH)
  next
    case False
    then have "\<forall>y \<in> set xs. f y \<noteq> f x"
      by (metis imageI)
    then have "filter (\<lambda>y. f y = f x) xs = []"
      by (simp add: filter_empty_conv)
    with False show ?thesis by (simp add: snoc.IH)
  qed
  show ?case
    unfolding groupBy_snoc old
    by (auto simp: update_conv' snoc.IH)
qed

lemma groupBy_distinct: "distinct (map fst (groupBy xs f))"
  by (induction xs rule: rev_induct) (simp_all add: groupBy_snoc distinct_update, simp add: groupBy_def)

lemma groupBy_group:
  assumes "x \<in> set xs"
  shows "(f x, filter (\<lambda>y. f y = f x) xs) \<in> set (groupBy xs f)"
proof -
  from assms have "map_of (groupBy xs f) (f x) = Some (filter (\<lambda>y. f y = f x) xs)"
    by (simp add: groupBy_map_of)
  then show ?thesis by (rule map_of_SomeD)
qed

lemma legacyLoop_rows_complete:
  assumes "legacyLoop slugify dayNumber epoch em vs rs specs = Inr (rs', specs')"
  shows "set rs \<subseteq> set rs'
         \<and> (\<forall>v \<in> set vs. \<exists>nr. legacyRows slugify dayNumber epoch em v = Inr nr
                             \<and> set nr \<subseteq> set rs')"
  using assms
proof (induction vs arbitrary: rs specs)
  case Nil
  then show ?case by simp
next
  case (Cons v vs)
  from Cons.prems obtain nr where nr: "legacyRows slugify dayNumber epoch em v = Inr nr"
    by (cases "legacyRows slugify dayNumber epoch em v") auto
  with Cons.prems have "legacyLoop slugify dayNumber epoch em vs (rs @ nr)
           (legacyColumnSpecs slugify specs v) = Inr (rs', specs')"
    by simp
  from Cons.IH [OF this] nr show ?case by auto
qed

lemma legacy_slug_fresh:
  "slug (columnSpecFromLegacyVariable slugify v)
     \<notin> {''day'', ''year'', ''entityName'', ''entityId'', ''entityCode''}"
  "makeAnnotationColumnSlug (slug (columnSpecFromLegacyVariable slugify v))
     \<notin> {''day'', ''year'', ''entityName'', ''entityId'', ''entityCode''}"
  "makeAnnotationColumnSlug s \<noteq> s"
proof -
  let ?s = "slug (columnSpecFromLegacyVariable slugify v)"
  have ne: "?s \<noteq> []" using string_of_int_hd [of "var_id v"]
    by (simp add: columnSpecFromLegacyVariable_def)
  have h: "hd ?s \<noteq> CHR ''d''" "hd ?s \<noteq> CHR ''e''" "hd ?s \<noteq> CHR ''y''"
    using legacy_slug_hd [of slugify v] by auto
  then show "?s \<notin> {''day'', ''year'', ''entityName'', ''entityId'', ''entityCode''}" by auto
  have "hd (makeAnnotationColumnSlug ?s) = hd ?s" using ne
    by (simp add: makeAnnotationColumnSlug_def)
  with h show "makeAnnotationColumnSlug ?s
                 \<notin> {''day'', ''year'', ''entityName'', ''entityId'', ''entityCode''}"
    by auto
  show "makeAnnotationColumnSlug s \<noteq> s"
    by (simp add: makeAnnotationColumnSlug_def)
qed

lemma distinct_row_set: "distinct (map fst r) \<Longrightarrow> distinct (map fst (row_set r k x))"
  by (simp add: row_set_def distinct_update)

lemma keys_row_set: "fst ` set (row_set r k x) = insert k (fst ` set r)"
  by (simp add: row_set_def dom_update)

lemma row_get_own:
  assumes "distinct (map fst r)" and "(k, x) \<in> set r"
  shows "row_get r k = x"
  using assms by (simp add: row_get_def)

lemma row_get_absent: "k \<notin> fst ` set r \<Longrightarrow> row_get r k = Undefined"
  using map_of_eq_None_iff [of r k] by (simp add: row_get_def)

lemma legacyRows_nth:
  assumes "legacyRows slugify dayNumber epoch em v = Inr nr" and "j < length (var_values v)"
  shows "length nr = length (var_values v)"
    and "distinct (map fst (nr ! j))"
    and "row_get (nr ! j) (if yearIsDay (display v) then ''day'' else ''year'')
         = int_at (legacyYears dayNumber epoch v) j"
    and "row_get (nr ! j) (if yearIsDay (display v) then ''year'' else ''day'') = Undefined"
    and "row_get (nr ! j) ''entityName''
         = str_at (map (\<lambda>id. meta_name (the (map_of em id))) (var_entities v)) j"
    and "row_get (nr ! j) (slug (columnSpecFromLegacyVariable slugify v)) = var_values v ! j"
    and "fst ` set (nr ! j)
         \<subseteq> {''day'', ''year'', ''entityName'', ''entityId'', ''entityCode'',
             slug (columnSpecFromLegacyVariable slugify v),
             makeAnnotationColumnSlug (slug (columnSpecFromLegacyVariable slugify v))}"
    and "slug (columnSpecFromLegacyVariable slugify v) \<in> fst ` set (nr ! j)"
    and "''entityName'' \<in> fst ` set (nr ! j)"
proof -
  let ?sp = "columnSpecFromLegacyVariable slugify v"
  let ?t = "if isDailyMeasurement ?sp then ''day'' else ''year''"
  let ?names = "map (\<lambda>id. meta_name (the (map_of em id))) (var_entities v)"
  let ?codes = "map (\<lambda>id. meta_code (the (map_of em id))) (var_entities v)"
  let ?r0 = "\<lambda>index value. row_set (row_set (row_set (row_set (row_set []
                               ?t (int_at (legacyYears dayNumber epoch v) index))
                               (slug ?sp) value)
                               ''entityName'' (str_at ?names index))
                               ''entityId'' (int_at (var_entities v) index))
                               ''entityCode'' (str_at ?codes index)"
  let ?ann = "\<lambda>index. case str_at ?names index of
                              Str n \<Rightarrow>
                                (case map_of (annotationsToMap
                                        (the (entityAnnotationsMap (display v)))) n of
                                   None \<Rightarrow> Undefined | Some a \<Rightarrow> Str a)
                            | _ \<Rightarrow> Undefined"
  let ?row = "\<lambda>(index, value). if hasAnnotations v
                 then row_set (?r0 index value) (makeAnnotationColumnSlug (slug ?sp)) (?ann index)
                 else ?r0 index value"
  from assms(1) have ok: "\<not> (\<exists>id \<in> set (var_entities v). map_of em id = None)"
    by (auto simp: legacyRows_def split: if_splits)
  from assms(1) ok have nr: "nr = map ?row (enumerate 0 (var_values v))"
    by (simp add: legacyRows_def Let_def)
  then show len: "length nr = length (var_values v)" by simp
  have d: "isDailyMeasurement ?sp = yearIsDay (display v)"
    by (simp add: columnSpecFromLegacyVariable_def)
  have row: "nr ! j = ?row (j, var_values v ! j)"
    using assms(2) by (simp add: nr nth_enumerate_eq)
  note fr = legacy_slug_fresh(1) [of slugify v] legacy_slug_fresh(2) [of slugify v]
    legacy_slug_fresh(3) [of "slug ?sp"]
  have s1: "slug ?sp \<noteq> ''day''" "slug ?sp \<noteq> ''year''" "slug ?sp \<noteq> ''entityName''"
    "slug ?sp \<noteq> ''entityId''" "slug ?sp \<noteq> ''entityCode''"
    using fr(1) by auto
  have s2: "makeAnnotationColumnSlug (slug ?sp) \<noteq> ''day''"
    "makeAnnotationColumnSlug (slug ?sp) \<noteq> ''year''"
    "makeAnnotationColumnSlug (slug ?sp) \<noteq> ''entityName''"
    "makeAnnotationColumnSlug (slug ?sp) \<noteq> ''entityId''"
    "makeAnnotationColumnSlug (slug ?sp) \<noteq> ''entityCode''"
    using fr(2) by auto
  have s3: "makeAnnotationColumnSlug (slug ?sp) \<noteq> slug ?sp" by (rule fr(3))
  show "distinct (map fst (nr ! j))"
    by (simp add: row distinct_row_set)
  show "row_get (nr ! j) (if yearIsDay (display v) then ''day'' else ''year'')
         = int_at (legacyYears dayNumber epoch v) j"
    using s1 s2 by (simp add: row d row_get_row_set)
  show "row_get (nr ! j) (if yearIsDay (display v) then ''year'' else ''day'') = Undefined"
    using s1 s2 by (simp add: row d row_get_row_set) (simp add: row_get_def)
  show "row_get (nr ! j) ''entityName'' = str_at ?names j"
    using s1 s2 by (simp add: row d row_get_row_set)
  show "row_get (nr ! j) (slug ?sp) = var_values v ! j"
    using s1 s2 s3 by (simp add: row d row_get_row_set)
  show "fst ` set (nr ! j)
         \<subseteq> {''day'', ''year'', ''entityName'', ''entityId'', ''entityCode'', slug ?sp,
             makeAnnotationColumnSlug (slug ?sp)}"
    by (simp add: row keys_row_set)
  show "slug ?sp \<in> fst ` set (nr ! j)"
    by (simp add: row keys_row_set)
  show "''entityName'' \<in> fst ` set (nr ! j)"
    by (simp add: row keys_row_set)
qed

lemma legacyRows_member:
  assumes "legacyRows slugify dayNumber epoch em v = Inr nr" and "r \<in> set nr"
  shows "\<exists>j < length (var_values v). r = nr ! j"
proof -
  from assms(2) obtain j where "j < length nr" "r = nr ! j"
    by (auto simp: in_set_conv_nth)
  moreover from assms(1) have "length nr = length (var_values v)"
    by (auto simp: legacyRows_def Let_def split: if_splits)
  ultimately show ?thesis by auto
qed

lemma row_get_mem:
  assumes "row_get r k = x" and "x \<noteq> Undefined"
  shows "(k, x) \<in> set r"
proof -
  from assms have "map_of r k = Some x"
    by (cases "map_of r k") (simp_all add: row_get_def)
  then show ?thesis by (rule map_of_SomeD)
qed

lemma row_key_mem:
  assumes "distinct (map fst r)" and "k \<in> fst ` set r"
  shows "(k, row_get r k) \<in> set r"
proof -
  from assms(2) obtain y where y: "(k, y) \<in> set r" by auto
  with row_get_own [OF assms(1) y] show ?thesis by simp
qed

lemma int_at_cases: "int_at xs i = Undefined \<or> (\<exists>a. int_at xs i = Num a)"
  by (simp add: int_at_def)

lemma legacyRows_times:
  assumes "legacyRows slugify dayNumber epoch em v = Inr nr" and "j < length (var_values v)"
  shows "row_get (nr ! j) ''year'' = Undefined \<or> (\<exists>y. row_get (nr ! j) ''year'' = Num y)"
    and "row_get (nr ! j) ''day'' = Undefined \<or> (\<exists>b. row_get (nr ! j) ''day'' = Num b)"
  using legacyRows_nth(3,4) [OF assms] int_at_cases [of "legacyYears dayNumber epoch v" j]
  by (cases "yearIsDay (display v)"; simp)+

lemma groupKey_day:
  assumes k: "groupKey r2 = groupKey r1"
    and r1: "row_get r1 ''year'' = Undefined" "row_get r1 ''day'' = Num a"
    and y2: "row_get r2 ''year'' = Undefined \<or> (\<exists>y. row_get r2 ''year'' = Num y)"
    and d2: "row_get r2 ''day'' = Undefined \<or> (\<exists>b. row_get r2 ''day'' = Num b)"
  shows "row_get r2 ''year'' = Undefined \<and> row_get r2 ''day'' = Num a
         \<and> to_string (row_get r2 ''entityName'') = to_string (row_get r1 ''entityName'')"
proof -
  let ?n1 = "to_string (row_get r1 ''entityName'')"
  let ?n2 = "to_string (row_get r2 ''entityName'')"
  have k1: "groupKey r1 = ''day:'' @ string_of_int a @ CHR '' '' # ?n1"
    by (simp add: groupKey_def r1)
  have sp: "CHR '' '' \<notin> set (string_of_int i)" for i
    using string_of_int_chars [of i] by auto
  have nu: "hd (string_of_int i @ zs) \<noteq> CHR ''u''" for i zs
  proof -
    have "hd (string_of_int i @ zs) = hd (string_of_int i)"
      using string_of_int_hd [of i] by simp
    with string_of_int_hd [of i] show ?thesis by auto
  qed
  show ?thesis
  proof (cases "row_get r2 ''year'' = Undefined")
    case False
    with y2 obtain y where "row_get r2 ''year'' = Num y" by blast
    then have "groupKey r2 = ''year:'' @ string_of_int y @ CHR '' '' # ?n2"
      by (simp add: groupKey_def)
    with k k1 show ?thesis by simp
  next
    case yu: True
    show ?thesis
    proof (cases "row_get r2 ''day'' = Undefined")
      case True
      with yu have "groupKey r2 = ''day:'' @ ''undefined'' @ CHR '' '' # ?n2"
        by (simp add: groupKey_def)
      with k k1 have "string_of_int a @ CHR '' '' # ?n1 = ''undefined'' @ CHR '' '' # ?n2"
        by simp
      then have "hd (string_of_int a @ CHR '' '' # ?n1) = CHR ''u''" by simp
      with nu show ?thesis by blast
    next
      case False
      with d2 obtain b where b: "row_get r2 ''day'' = Num b" by blast
      with yu have "groupKey r2 = ''day:'' @ string_of_int b @ CHR '' '' # ?n2"
        by (simp add: groupKey_def)
      with k k1 have "string_of_int b @ CHR '' '' # ?n2 = string_of_int a @ CHR '' '' # ?n1"
        by simp
      from first_separator [OF this sp sp] have "string_of_int b = string_of_int a" "?n2 = ?n1"
        by simp_all
      with string_of_int_inj [of b a] b yu show ?thesis by simp
    qed
  qed
qed

lemma object_assign_same:
  assumes "r1 \<in> set g" and "(k, x) \<in> set r1"
    and "\<forall>r \<in> set g. \<forall>y. (k, y) \<in> set r \<longrightarrow> y = x"
  shows "row_get (object_assign g) k = x"
proof -
  from assms(1,2) have m: "(k, x) \<in> set (concat g)" by auto
  from assms(3) have "\<forall>(k', v') \<in> set (concat g). k' = k \<longrightarrow> v' = x" by auto
  from map_of_rev_same [OF m this] show ?thesis
    by (simp add: row_get_def map_of_object_assign)
qed

lemma object_assign_pick:
  assumes "r1 \<in> set g" and "(k, x) \<in> set r1"
  shows "\<exists>r \<in> set g. (k, row_get (object_assign g) k) \<in> set r"
proof -
  from assms have "k \<in> fst ` set (rev (concat g))" by force
  then have "map_of (rev (concat g)) k \<noteq> None"
    using map_of_eq_None_iff [of "rev (concat g)" k] by blast
  then obtain y where y: "map_of (rev (concat g)) k = Some y" by blast
  then have "(k, y) \<in> set (rev (concat g))" by (rule map_of_SomeD)
  then obtain r where "r \<in> set g" "(k, y) \<in> set r" by auto
  moreover from y have "row_get (object_assign g) k = y"
    by (simp add: row_get_def map_of_object_assign)
  ultimately show ?thesis by blast
qed

lemma fromLegacy_rows:
  assumes "fromLegacy slugify dayNumber epoch json = Inr t"
  shows "\<exists>rs specs.
           legacyLoop slugify dayNumber epoch (entityKey json) (variables json) []
               identityColumnSpecs = Inr (rs, specs)
           \<and> rows t = map (\<lambda>(groupKey, g). object_assign g) (groupBy rs groupKey)"
  using assms by (auto simp: fromLegacy_def newTable_def Let_def split: sum.splits)

lemma fromLegacy_source_row:
  assumes "legacyLoop slugify dayNumber epoch em vs [] specs0 = Inr (rs, specs)"
    and "r \<in> set rs"
  shows "\<exists>v \<in> set vs. \<exists>nr. \<exists>j < length (var_values v).
           legacyRows slugify dayNumber epoch em v = Inr nr \<and> r = nr ! j"
proof -
  from legacyLoop_rows [OF assms] obtain v nr where
    v: "v \<in> set vs" "legacyRows slugify dayNumber epoch em v = Inr nr" "r \<in> set nr"
    by auto
  from legacyRows_member [OF v(2,3)] v(1,2) show ?thesis by blast
qed

lemma fromLegacy_merged:
  assumes t: "fromLegacy slugify dayNumber epoch json = Inr t"
    and v: "v \<in> set (variables json)" "yearIsDay (display v)"
    and j: "j < length (var_values v)" "j < length (var_years v)" "j < length (var_entities v)"
  shows "\<exists>rs specs nr.
           legacyLoop slugify dayNumber epoch (entityKey json) (variables json) []
               identityColumnSpecs = Inr (rs, specs)
           \<and> legacyRows slugify dayNumber epoch (entityKey json) v = Inr nr
           \<and> nr ! j \<in> set rs
           \<and> groupKey (nr ! j)
               = ''day:'' @ string_of_int (normalisedDay dayNumber epoch v j)
                 @ CHR '' '' # observationEntity (entityKey json) v j
           \<and> object_assign (filter (\<lambda>x. groupKey x = groupKey (nr ! j)) rs) \<in> set (rows t)
           \<and> row_get (object_assign (filter (\<lambda>x. groupKey x = groupKey (nr ! j)) rs)) ''day''
               = Num (normalisedDay dayNumber epoch v j)
           \<and> to_string (row_get (object_assign (filter (\<lambda>x. groupKey x = groupKey (nr ! j)) rs))
                          ''entityName'')
               = observationEntity (entityKey json) v j
           \<and> (\<forall>r2 \<in> set (filter (\<lambda>x. groupKey x = groupKey (nr ! j)) rs).
                 \<exists>v2 \<in> set (variables json). \<exists>nr2. \<exists>j2 < length (var_values v2).
                   legacyRows slugify dayNumber epoch (entityKey json) v2 = Inr nr2
                   \<and> r2 = nr2 ! j2
                   \<and> row_get r2 ''day'' = Num (normalisedDay dayNumber epoch v j)
                   \<and> to_string (row_get r2 ''entityName'')
                       = observationEntity (entityKey json) v j)"
proof -
  let ?em = "entityKey json"
  from fromLegacy_rows [OF t] obtain rs specs where
    l: "legacyLoop slugify dayNumber epoch ?em (variables json) [] identityColumnSpecs
          = Inr (rs, specs)"
    and rt: "rows t = map (\<lambda>(groupKey, g). object_assign g) (groupBy rs groupKey)"
    by blast
  from legacyLoop_rows_complete [OF l] v(1) obtain nr where
    nr: "legacyRows slugify dayNumber epoch ?em v = Inr nr" "set nr \<subseteq> set rs"
    by blast
  let ?r1 = "nr ! j"
  let ?a = "normalisedDay dayNumber epoch v j"
  let ?n = "observationEntity ?em v j"
  note s = legacyRows_nth [OF nr(1) j(1)]
  from s(1) j(1) have "?r1 \<in> set nr" by simp
  with nr(2) have r1: "?r1 \<in> set rs" by blast
  have ys: "int_at (legacyYears dayNumber epoch v) j = Num ?a"
    using legacyYears_nth [OF v(2), of dayNumber epoch] j(2)
    by (simp add: int_at_def normalisedDay_def)
  have d1: "row_get ?r1 ''day'' = Num ?a" using s(3) v(2) ys by simp
  have y1: "row_get ?r1 ''year'' = Undefined" using s(4) v(2) by simp
  have n1: "row_get ?r1 ''entityName'' = Str ?n"
    using s(5) j(3) by (simp add: str_at_def observationEntity_def)
  have key: "groupKey ?r1 = ''day:'' @ string_of_int ?a @ CHR '' '' # ?n"
    by (simp add: groupKey_def d1 y1 n1)
  let ?g = "filter (\<lambda>x. groupKey x = groupKey ?r1) rs"
  have g1: "?r1 \<in> set ?g" using r1 by simp
  have "(groupKey ?r1, ?g) \<in> set (groupBy rs groupKey)"
    using r1 by (rule groupBy_group)
  then have mem: "object_assign ?g \<in> set (rows t)"
    unfolding rt by force
  have each: "\<exists>v2 \<in> set (variables json). \<exists>nr2. \<exists>j2 < length (var_values v2).
                   legacyRows slugify dayNumber epoch ?em v2 = Inr nr2
                   \<and> r2 = nr2 ! j2
                   \<and> row_get r2 ''day'' = Num ?a
                   \<and> to_string (row_get r2 ''entityName'') = ?n"
    if "r2 \<in> set ?g" for r2
  proof -
    from that have r2: "r2 \<in> set rs" and k: "groupKey r2 = groupKey ?r1" by simp_all
    from fromLegacy_source_row [OF l r2] obtain v2 nr2 j2 where
      v2: "v2 \<in> set (variables json)" "j2 < length (var_values v2)"
        "legacyRows slugify dayNumber epoch ?em v2 = Inr nr2" "r2 = nr2 ! j2"
      by blast
    note tm = legacyRows_times [OF v2(3) v2(2)]
    from groupKey_day [OF k y1 d1] tm v2(4)
    have "row_get r2 ''day'' = Num ?a"
      "to_string (row_get r2 ''entityName'') = to_string (row_get ?r1 ''entityName'')"
      by simp_all
    with v2 n1 show ?thesis by auto
  qed
  have dist: "distinct (map fst r2)" if "r2 \<in> set ?g" for r2
  proof -
    from each [OF that] obtain v2 nr2 j2 where
      "j2 < length (var_values v2)" "legacyRows slugify dayNumber epoch ?em v2 = Inr nr2"
      "r2 = nr2 ! j2" by blast
    with legacyRows_nth(2) [of slugify dayNumber epoch ?em v2 nr2 j2] show ?thesis by simp
  qed
  have day: "row_get (object_assign ?g) ''day'' = Num ?a"
  proof (rule object_assign_same [OF g1])
    show "(''day'', Num ?a) \<in> set ?r1" using d1 by (rule row_get_mem) simp
    show "\<forall>r \<in> set ?g. \<forall>y. (''day'', y) \<in> set r \<longrightarrow> y = Num ?a"
    proof (intro ballI allI impI)
      fix r y assume r: "r \<in> set ?g" and y: "(''day'', y) \<in> set r"
      from row_get_own [OF dist [OF r] y] each [OF r] show "y = Num ?a" by auto
    qed
  qed
  have name: "to_string (row_get (object_assign ?g) ''entityName'') = ?n"
  proof -
    have "(''entityName'', Str ?n) \<in> set ?r1" using n1 by (rule row_get_mem) simp
    from object_assign_pick [OF g1 this] obtain r where
      r: "r \<in> set ?g" "(''entityName'', row_get (object_assign ?g) ''entityName'') \<in> set r"
      by blast
    from row_get_own [OF dist [OF r(1)] r(2)] each [OF r(1)] show ?thesis by auto
  qed
  from each have all: "\<forall>r2 \<in> set ?g.
                 \<exists>v2 \<in> set (variables json). \<exists>nr2. \<exists>j2 < length (var_values v2).
                   legacyRows slugify dayNumber epoch ?em v2 = Inr nr2
                   \<and> r2 = nr2 ! j2
                   \<and> row_get r2 ''day'' = Num ?a
                   \<and> to_string (row_get r2 ''entityName'') = ?n"
    by blast
  from l nr(1) r1 key mem day name all show ?thesis by blast
qed

lemma legacy_slug_owner:
  assumes "distinct (map var_id vs)" and "v \<in> set vs" and "v2 \<in> set vs"
    and "slug (columnSpecFromLegacyVariable slugify v)
         \<in> {slug (columnSpecFromLegacyVariable slugify v2),
             makeAnnotationColumnSlug (slug (columnSpecFromLegacyVariable slugify v2))}"
  shows "v2 = v"
proof -
  have s: "slug (columnSpecFromLegacyVariable slugify w)
           = string_of_int (var_id w) @ CHR ''-'' # slugify (var_name w)" for w
    by (simp add: columnSpecFromLegacyVariable_def)
  have a: "makeAnnotationColumnSlug (slug (columnSpecFromLegacyVariable slugify w))
           = string_of_int (var_id w) @ CHR ''-'' # (slugify (var_name w) @ ''-annotations'')" for w
    by (simp add: columnSpecFromLegacyVariable_def makeAnnotationColumnSlug_def)
  from assms(4) have "var_id v = var_id v2"
  proof
    assume "slug (columnSpecFromLegacyVariable slugify v)
            = slug (columnSpecFromLegacyVariable slugify v2)"
    then show ?thesis unfolding s by (rule int_prefix_inj)
  next
    assume "slug (columnSpecFromLegacyVariable slugify v)
            \<in> {makeAnnotationColumnSlug (slug (columnSpecFromLegacyVariable slugify v2))}"
    then have "slug (columnSpecFromLegacyVariable slugify v)
            = makeAnnotationColumnSlug (slug (columnSpecFromLegacyVariable slugify v2))"
      by simp
    then have "string_of_int (var_id v) @ CHR ''-'' # slugify (var_name v)
               = string_of_int (var_id v2) @ CHR ''-'' # (slugify (var_name v2) @ ''-annotations'')"
      by (simp add: columnSpecFromLegacyVariable_def makeAnnotationColumnSlug_def)
    then show ?thesis by (rule int_prefix_inj)
  qed
  moreover from assms(1) have "inj_on var_id (set vs)" by (simp add: distinct_map)
  ultimately show ?thesis using assms(2,3) by (simp add: inj_on_def)
qed

lemma fromLegacy_observation:
  assumes t: "fromLegacy slugify dayNumber epoch json = Inr t"
    and ids: "distinct (map var_id (variables json))"
    and par: "\<forall>w \<in> set (variables json). parallelArrays w"
    and v: "v \<in> set (variables json)" "yearIsDay (display v)"
    and j: "j < length (var_values v)"
    and uniq: "\<forall>j' < length (var_values v).
                 observationEntity (entityKey json) v j' = observationEntity (entityKey json) v j
                 \<and> var_years v ! j' = var_years v ! j \<longrightarrow> j' = j"
  shows "\<exists>rs specs nr.
           legacyLoop slugify dayNumber epoch (entityKey json) (variables json) []
               identityColumnSpecs = Inr (rs, specs)
           \<and> legacyRows slugify dayNumber epoch (entityKey json) v = Inr nr
           \<and> groupKey (nr ! j)
               = ''day:'' @ string_of_int (normalisedDay dayNumber epoch v j)
                 @ CHR '' '' # observationEntity (entityKey json) v j
           \<and> object_assign (filter (\<lambda>x. groupKey x = groupKey (nr ! j)) rs) \<in> set (rows t)
           \<and> row_get (object_assign (filter (\<lambda>x. groupKey x = groupKey (nr ! j)) rs)) ''day''
               = Num (normalisedDay dayNumber epoch v j)
           \<and> row_get (object_assign (filter (\<lambda>x. groupKey x = groupKey (nr ! j)) rs))
                 ''entityName''
               = Str (observationEntity (entityKey json) v j)
           \<and> row_get (object_assign (filter (\<lambda>x. groupKey x = groupKey (nr ! j)) rs))
                 (slug (columnSpecFromLegacyVariable slugify v))
               = var_values v ! j"
proof -
  let ?em = "entityKey json"
  let ?a = "normalisedDay dayNumber epoch v j"
  let ?n = "observationEntity ?em v j"
  let ?s = "slug (columnSpecFromLegacyVariable slugify v)"
  from par v(1) have pv: "parallelArrays v" by blast
  with j have jy: "j < length (var_years v)" and je: "j < length (var_entities v)"
    by (simp_all add: parallelArrays_def)
  from fromLegacy_merged [OF t v j jy je] obtain rs specs nr where
    l: "legacyLoop slugify dayNumber epoch ?em (variables json) [] identityColumnSpecs
          = Inr (rs, specs)"
    and nr: "legacyRows slugify dayNumber epoch ?em v = Inr nr"
    and r1: "nr ! j \<in> set rs"
    and key: "groupKey (nr ! j) = ''day:'' @ string_of_int ?a @ CHR '' '' # ?n"
    and mem: "object_assign (filter (\<lambda>x. groupKey x = groupKey (nr ! j)) rs) \<in> set (rows t)"
    and day: "row_get (object_assign (filter (\<lambda>x. groupKey x = groupKey (nr ! j)) rs)) ''day''
               = Num ?a"
    and each: "\<forall>r2 \<in> set (filter (\<lambda>x. groupKey x = groupKey (nr ! j)) rs).
                 \<exists>v2 \<in> set (variables json). \<exists>nr2. \<exists>j2 < length (var_values v2).
                   legacyRows slugify dayNumber epoch ?em v2 = Inr nr2
                   \<and> r2 = nr2 ! j2
                   \<and> row_get r2 ''day'' = Num ?a
                   \<and> to_string (row_get r2 ''entityName'') = ?n"
    by blast
  let ?g = "filter (\<lambda>x. groupKey x = groupKey (nr ! j)) rs"
  have g1: "nr ! j \<in> set ?g" using r1 by simp
  note s = legacyRows_nth [OF nr j]
  have shape: "\<exists>v2 \<in> set (variables json). \<exists>nr2. \<exists>j2 < length (var_values v2).
                   legacyRows slugify dayNumber epoch ?em v2 = Inr nr2
                   \<and> r2 = nr2 ! j2 \<and> distinct (map fst r2)
                   \<and> row_get r2 ''day'' = Num ?a
                   \<and> row_get r2 ''entityName'' = Str ?n"
    if "r2 \<in> set ?g" for r2
  proof -
    from each that obtain v2 nr2 j2 where
      v2: "v2 \<in> set (variables json)" "j2 < length (var_values v2)"
        "legacyRows slugify dayNumber epoch ?em v2 = Inr nr2" "r2 = nr2 ! j2"
        "row_get r2 ''day'' = Num ?a" "to_string (row_get r2 ''entityName'') = ?n"
      by blast
    from par v2(1) v2(2) have "j2 < length (var_entities v2)"
      by (simp add: parallelArrays_def)
    with legacyRows_nth(5) [OF v2(3,2)] v2(4)
    have "row_get r2 ''entityName'' = Str (observationEntity ?em v2 j2)"
      by (simp add: str_at_def observationEntity_def)
    with v2(6) have "row_get r2 ''entityName'' = Str ?n" by simp
    with v2 legacyRows_nth(2) [OF v2(3,2)] show ?thesis by blast
  qed
  have name: "row_get (object_assign ?g) ''entityName'' = Str ?n"
  proof -
    from row_key_mem [OF s(2) s(9)] have "(''entityName'', row_get (nr ! j) ''entityName'') \<in> set (nr ! j)" .
    from object_assign_pick [OF g1 this] obtain r where
      r: "r \<in> set ?g" "(''entityName'', row_get (object_assign ?g) ''entityName'') \<in> set r"
      by blast
    from shape [OF r(1)] row_get_own [OF _ r(2)] show ?thesis by auto
  qed
  have "row_get (object_assign ?g) ?s = var_values v ! j"
  proof (rule object_assign_same [OF g1])
    from row_key_mem [OF s(2) s(8)] s(6) show "(?s, var_values v ! j) \<in> set (nr ! j)" by simp
    show "\<forall>r \<in> set ?g. \<forall>y. (?s, y) \<in> set r \<longrightarrow> y = var_values v ! j"
    proof (intro ballI allI impI)
      fix r y assume r: "r \<in> set ?g" and y: "(?s, y) \<in> set r"
      from shape [OF r] obtain v2 nr2 j2 where
        v2: "v2 \<in> set (variables json)" "j2 < length (var_values v2)"
          "legacyRows slugify dayNumber epoch ?em v2 = Inr nr2" "r = nr2 ! j2"
          "distinct (map fst r)" "row_get r ''day'' = Num ?a" "row_get r ''entityName'' = Str ?n"
        by blast
      from y have "?s \<in> fst ` set r" by force
      with legacyRows_nth(7) [OF v2(3,2)] v2(4) legacy_slug_fresh(1) [of slugify v]
      have "?s \<in> {slug (columnSpecFromLegacyVariable slugify v2),
                   makeAnnotationColumnSlug (slug (columnSpecFromLegacyVariable slugify v2))}"
        by auto
      from legacy_slug_owner [OF ids v(1) v2(1) this] have same: "v2 = v" .
      with v2(3) nr have nn: "nr2 = nr" by simp
      from v2(2) same have j2: "j2 < length (var_values v)" by simp
      from row_get_own [OF v2(5) y] have "y = row_get (nr ! j2) ?s" by (simp add: v2(4) nn)
      also have "\<dots> = var_values v ! j2" by (rule legacyRows_nth(6) [OF nr j2])
      finally have yv: "y = var_values v ! j2" .
      from pv j2 have j2y: "j2 < length (var_years v)" and j2e: "j2 < length (var_entities v)"
        by (simp_all add: parallelArrays_def)
      have "row_get (nr ! j2) ''day'' = Num (normalisedDay dayNumber epoch v j2)"
        using legacyRows_nth(3) [OF nr j2] v(2) legacyYears_nth [OF v(2), of dayNumber epoch] j2y
        by (simp add: int_at_def normalisedDay_def)
      with v2(6) have "normalisedDay dayNumber epoch v j2 = ?a" by (simp add: v2(4) nn)
      then have yr: "var_years v ! j2 = var_years v ! j" by (simp add: normalisedDay_def)
      have "row_get (nr ! j2) ''entityName'' = Str (observationEntity ?em v j2)"
        using legacyRows_nth(5) [OF nr j2] j2e by (simp add: str_at_def observationEntity_def)
      with v2(7) have "observationEntity ?em v j2 = ?n" by (simp add: v2(4) nn)
      with uniq j2 yr have "j2 = j" by blast
      with yv show "y = var_values v ! j" by simp
    qed
  qed
  with l nr key mem day name show ?thesis by blast
qed

lemma normalisedDay_date:
  "normalisedDay dayNumber epoch v j = observationDate dayNumber epoch v j - dayNumber epoch"
  by (cases "zeroDay (display v)")
    (simp_all add: normalisedDay_def observationDate_def diffDateISOStringInDays_def)

text \<open>
  C5. For a daily variable with declared \<open>zeroDay\<close> \<open>D\<close>, the \<open>day\<close> value of every row
  that \<open>fromLegacy\<close> builds for it is the raw day offset plus the whole-day difference
  between \<open>D\<close> and the table epoch; hence an observation of any other variable (zero day
  \<open>D'\<close>, raw offset \<open>y'\<close>) that falls on the same real date gets the same \<open>day\<close> value.
  In the merged table: every \<open>day\<close> value is the normalised day of an observation of a
  daily variable; every observation of a daily variable lies in a row that carries its
  normalised day and the name of its entity; and, when the variables have distinct ids
  and parallel arrays, two observations of the same real date and the same entity, each
  the sole observation of its variable for that entity and time, lie in one row, which
  carries the normalised day, the entity name and the values of both.
\<close>

theorem fromLegacy_day_normalised:
  assumes "yearIsDay (display v)" and "zeroDay (display v) = Some D"
    and "legacyRows slugify dayNumber epoch em v = Inr rs"
    and "i < length (var_values v)" and "i < length (var_years v)"
  shows "row_get (rs ! i) ''day''
           = Num (var_years v ! i + diffDateISOStringInDays dayNumber D epoch)
         \<and> (\<forall>D' y'. dayNumber D' + y' = dayNumber D + var_years v ! i \<longrightarrow>
                y' + diffDateISOStringInDays dayNumber D' epoch
                  = var_years v ! i + diffDateISOStringInDays dayNumber D epoch)
         \<and> (fromLegacy slugify dayNumber epoch json = Inr t \<longrightarrow>
              (\<forall>r \<in> set (rows t). row_get r ''day'' \<noteq> Undefined \<longrightarrow>
                 (\<exists>v' \<in> set (variables json). yearIsDay (display v')
                    \<and> (\<exists>j < length (var_years v').
                          row_get r ''day'' = Num (normalisedDay dayNumber epoch v' j))))
              \<and> (\<forall>v' \<in> set (variables json). yearIsDay (display v') \<longrightarrow>
                   (\<forall>j. j < length (var_values v') \<and> j < length (var_years v')
                        \<and> j < length (var_entities v') \<longrightarrow>
                      (\<exists>r \<in> set (rows t).
                         row_get r ''day'' = Num (normalisedDay dayNumber epoch v' j)
                         \<and> to_string (row_get r ''entityName'')
                             = observationEntity (entityKey json) v' j)))
              \<and> (distinct (map var_id (variables json))
                   \<and> (\<forall>w \<in> set (variables json). parallelArrays w) \<longrightarrow>
                 (\<forall>v1 \<in> set (variables json). \<forall>v2 \<in> set (variables json).
                    yearIsDay (display v1) \<and> yearIsDay (display v2) \<longrightarrow>
                    (\<forall>j1 < length (var_values v1). \<forall>j2 < length (var_values v2).
                       observationDate dayNumber epoch v1 j1 = observationDate dayNumber epoch v2 j2
                       \<and> observationEntity (entityKey json) v1 j1
                           = observationEntity (entityKey json) v2 j2
                       \<and> soleObservation (entityKey json) v1 j1
                       \<and> soleObservation (entityKey json) v2 j2 \<longrightarrow>
                       (\<exists>r \<in> set (rows t).
                          row_get r ''day'' = Num (normalisedDay dayNumber epoch v1 j1)
                          \<and> row_get r ''day'' = Num (normalisedDay dayNumber epoch v2 j2)
                          \<and> row_get r ''entityName''
                              = Str (observationEntity (entityKey json) v1 j1)
                          \<and> row_get r (slug (columnSpecFromLegacyVariable slugify v1))
                              = var_values v1 ! j1
                          \<and> row_get r (slug (columnSpecFromLegacyVariable slugify v2))
                              = var_values v2 ! j2)))))"
proof -
  let ?sp = "columnSpecFromLegacyVariable slugify v"
  have p1: "row_get (rs ! i) ''day''
           = Num (var_years v ! i + diffDateISOStringInDays dayNumber D epoch)"
  proof -
    have "row_get (rs ! i) ''day'' = int_at (legacyYears dayNumber epoch v) i"
      using legacyRows_nth(3) [OF assms(3,4)] assms(1) by simp
    also have "\<dots> = Num (var_years v ! i + diffDateISOStringInDays dayNumber D epoch)"
      using assms(5) by (simp add: legacyYears_daily [OF assms(1,2)] int_at_def)
    finally show ?thesis .
  qed
  have p2: "\<forall>D' y'. dayNumber D' + y' = dayNumber D + var_years v ! i \<longrightarrow>
                y' + diffDateISOStringInDays dayNumber D' epoch
                  = var_years v ! i + diffDateISOStringInDays dayNumber D epoch"
    by (simp add: diffDateISOStringInDays_def)
  have p3: "\<exists>v' \<in> set (variables json). yearIsDay (display v')
                    \<and> (\<exists>j < length (var_years v').
                          row_get r ''day'' = Num (normalisedDay dayNumber epoch v' j))"
    if t: "fromLegacy slugify dayNumber epoch json = Inr t" and r: "r \<in> set (rows t)"
      and d: "row_get r ''day'' \<noteq> Undefined" for r
  proof -
    from fromLegacy_rows_day [OF t r d] obtain v' j where
      v': "v' \<in> set (variables json)" "yearIsDay (display v')"
      and j: "row_get r ''day'' = int_at (legacyYears dayNumber epoch v') j"
      by blast
    note n = legacyYears_nth [OF v'(2), of dayNumber epoch]
    from j d have jl: "j < length (legacyYears dayNumber epoch v')"
      by (auto simp: int_at_def split: if_splits)
    with n have jy: "j < length (var_years v')" by simp
    with n have "legacyYears dayNumber epoch v' ! j = normalisedDay dayNumber epoch v' j"
      by (simp add: normalisedDay_def)
    with j jl have "row_get r ''day'' = Num (normalisedDay dayNumber epoch v' j)"
      by (simp add: int_at_def)
    with v' jy show ?thesis by blast
  qed
  have p4: "\<exists>r \<in> set (rows t).
                         row_get r ''day'' = Num (normalisedDay dayNumber epoch v' j)
                         \<and> to_string (row_get r ''entityName'')
                             = observationEntity (entityKey json) v' j"
    if t: "fromLegacy slugify dayNumber epoch json = Inr t"
      and v': "v' \<in> set (variables json)" "yearIsDay (display v')"
      and j: "j < length (var_values v')" "j < length (var_years v')"
        "j < length (var_entities v')" for v' j
    using fromLegacy_merged [OF t v' j] by blast
  have p5: "\<exists>r \<in> set (rows t).
                          row_get r ''day'' = Num (normalisedDay dayNumber epoch v1 j1)
                          \<and> row_get r ''day'' = Num (normalisedDay dayNumber epoch v2 j2)
                          \<and> row_get r ''entityName''
                              = Str (observationEntity (entityKey json) v1 j1)
                          \<and> row_get r (slug (columnSpecFromLegacyVariable slugify v1))
                              = var_values v1 ! j1
                          \<and> row_get r (slug (columnSpecFromLegacyVariable slugify v2))
                              = var_values v2 ! j2"
    if t: "fromLegacy slugify dayNumber epoch json = Inr t"
      and ids: "distinct (map var_id (variables json))"
      and par: "\<forall>w \<in> set (variables json). parallelArrays w"
      and v1: "v1 \<in> set (variables json)" "yearIsDay (display v1)"
      and v2: "v2 \<in> set (variables json)" "yearIsDay (display v2)"
      and j1: "j1 < length (var_values v1)" and j2: "j2 < length (var_values v2)"
      and date: "observationDate dayNumber epoch v1 j1 = observationDate dayNumber epoch v2 j2"
      and ent: "observationEntity (entityKey json) v1 j1
                = observationEntity (entityKey json) v2 j2"
      and s1: "soleObservation (entityKey json) v1 j1"
      and s2: "soleObservation (entityKey json) v2 j2"
    for v1 v2 j1 j2
  proof -
    let ?em = "entityKey json"
    have u1: "\<forall>j' < length (var_values v1).
                 observationEntity ?em v1 j' = observationEntity ?em v1 j1
                 \<and> var_years v1 ! j' = var_years v1 ! j1 \<longrightarrow> j' = j1"
      using s1 by (simp add: soleObservation_def)
    have u2: "\<forall>j' < length (var_values v2).
                 observationEntity ?em v2 j' = observationEntity ?em v2 j2
                 \<and> var_years v2 ! j' = var_years v2 ! j2 \<longrightarrow> j' = j2"
      using s2 by (simp add: soleObservation_def)
    have same: "normalisedDay dayNumber epoch v1 j1 = normalisedDay dayNumber epoch v2 j2"
      by (simp add: normalisedDay_date date)
    from fromLegacy_observation [OF t ids par v1 j1 u1] obtain rs1 specs1 nr1 where
      a: "legacyLoop slugify dayNumber epoch ?em (variables json) [] identityColumnSpecs
            = Inr (rs1, specs1)"
      and ka: "groupKey (nr1 ! j1)
               = ''day:'' @ string_of_int (normalisedDay dayNumber epoch v1 j1)
                 @ CHR '' '' # observationEntity ?em v1 j1"
      and ma: "object_assign (filter (\<lambda>x. groupKey x = groupKey (nr1 ! j1)) rs1) \<in> set (rows t)"
      and da: "row_get (object_assign (filter (\<lambda>x. groupKey x = groupKey (nr1 ! j1)) rs1)) ''day''
               = Num (normalisedDay dayNumber epoch v1 j1)"
      and na: "row_get (object_assign (filter (\<lambda>x. groupKey x = groupKey (nr1 ! j1)) rs1))
                 ''entityName'' = Str (observationEntity ?em v1 j1)"
      and va: "row_get (object_assign (filter (\<lambda>x. groupKey x = groupKey (nr1 ! j1)) rs1))
                 (slug (columnSpecFromLegacyVariable slugify v1)) = var_values v1 ! j1"
      by blast
    from fromLegacy_observation [OF t ids par v2 j2 u2] obtain rs2 specs2 nr2 where
      b: "legacyLoop slugify dayNumber epoch ?em (variables json) [] identityColumnSpecs
            = Inr (rs2, specs2)"
      and kb: "groupKey (nr2 ! j2)
               = ''day:'' @ string_of_int (normalisedDay dayNumber epoch v2 j2)
                 @ CHR '' '' # observationEntity ?em v2 j2"
      and vb: "row_get (object_assign (filter (\<lambda>x. groupKey x = groupKey (nr2 ! j2)) rs2))
                 (slug (columnSpecFromLegacyVariable slugify v2)) = var_values v2 ! j2"
      by blast
    from a b have rs: "rs2 = rs1" by simp
    from ka kb same ent have k: "groupKey (nr2 ! j2) = groupKey (nr1 ! j1)" by simp
    let ?r = "object_assign (filter (\<lambda>x. groupKey x = groupKey (nr1 ! j1)) rs1)"
    from vb have vb': "row_get ?r (slug (columnSpecFromLegacyVariable slugify v2)) = var_values v2 ! j2"
      by (simp only: rs k)
    from da same have db: "row_get ?r ''day'' = Num (normalisedDay dayNumber epoch v2 j2)"
      by simp
    from ma da db na va vb' show ?thesis by blast
  qed
  from p1 p2 p3 p4 p5 show ?thesis by (intro conjI impI ballI allI) blast+
qed

theorem fromLegacy_day_normalised_witness:
  "yearIsDay (display ex_daily) \<and> zeroDay (display ex_daily) = Some ''2020-01-11''
   \<and> (\<exists>rs. legacyRows (\<lambda>s. s) ex_dayNumber ''2020-01-21'' (entityKey ex_json) ex_daily = Inr rs
         \<and> row_get (rs ! 1) ''day'' = Num 3)
   \<and> 3 + diffDateISOStringInDays ex_dayNumber ''2020-01-21'' ''2020-01-21''
       = 13 + diffDateISOStringInDays ex_dayNumber ''2020-01-11'' ''2020-01-21''
   \<and> distinct (map var_id (variables ex_daily_json))
   \<and> parallelArrays ex_cases \<and> parallelArrays ex_daily
   \<and> observationDate ex_dayNumber ''2020-01-21'' ex_cases 2
       = observationDate ex_dayNumber ''2020-01-21'' ex_daily 1
   \<and> soleObservation (entityKey ex_daily_json) ex_cases 2
   \<and> soleObservation (entityKey ex_daily_json) ex_daily 1
   \<and> (\<exists>t. fromLegacy (\<lambda>s. s) ex_dayNumber ''2020-01-21'' ex_daily_json = Inr t
         \<and> map (\<lambda>r. (row_get r ''day'', row_get r ''entityName'', row_get r ''5-cases'',
                      row_get r ''6-deaths'')) (rows t)
             = [(Num 0, Str ''A'', Num 7, Num 1), (Num 3, Str ''A'', Num 8, Undefined),
                (Num 3, Str ''B'', Num 9, Num 2)]
         \<and> (\<forall>r \<in> set (rows t). row_get r ''day'' \<noteq> Undefined \<longrightarrow>
               (\<exists>v' \<in> set (variables ex_daily_json). yearIsDay (display v')
                  \<and> (\<exists>j < length (var_years v').
                        row_get r ''day'' = Num (normalisedDay ex_dayNumber ''2020-01-21'' v' j))))
         \<and> (\<exists>r \<in> set (rows t). row_get r ''day'' = Num 3
                \<and> to_string (row_get r ''entityName'') = ''A'')
         \<and> (\<exists>r \<in> set (rows t). row_get r ''day'' = Num 3
                \<and> row_get r ''entityName'' = Str ''B''
                \<and> row_get r ''5-cases'' = Num 9 \<and> row_get r ''6-deaths'' = Num 2))"
proof -
  let ?E = "''2020-01-21''"
  have h1: "yearIsDay (display ex_daily)" by (simp add: ex_daily_def)
  have h2: "zeroDay (display ex_daily) = Some ''2020-01-11''" by (simp add: ex_daily_def)
  have "\<not> isl (legacyRows (\<lambda>s. s) ex_dayNumber ?E (entityKey ex_json) ex_daily)"
    by code_simp
  then obtain rs where
    h3: "legacyRows (\<lambda>s. s) ex_dayNumber ?E (entityKey ex_json) ex_daily = Inr rs"
    by (cases "legacyRows (\<lambda>s. s) ex_dayNumber ?E (entityKey ex_json) ex_daily") auto
  have h4: "1 < length (var_values ex_daily)" by (simp add: ex_daily_def)
  have h5: "1 < length (var_years ex_daily)" by (simp add: ex_daily_def)
  have d: "diffDateISOStringInDays ex_dayNumber ''2020-01-11'' ?E = - 10"
    by (simp add: diffDateISOStringInDays_def ex_dayNumber_def)
  have y: "var_years ex_daily ! 1 = 13" by (simp add: ex_daily_def)
  have "\<not> isl (fromLegacy (\<lambda>s. s) ex_dayNumber ?E ex_daily_json)"
    by code_simp
  then obtain t where
    h6: "fromLegacy (\<lambda>s. s) ex_dayNumber ?E ex_daily_json = Inr t"
    by (cases "fromLegacy (\<lambda>s. s) ex_dayNumber ?E ex_daily_json") auto
  have "map_sum id (\<lambda>t. map (\<lambda>r. (row_get r ''day'', row_get r ''entityName'',
                                     row_get r ''5-cases'', row_get r ''6-deaths'')) (rows t))
          (fromLegacy (\<lambda>s. s) ex_dayNumber ?E ex_daily_json)
        = Inr [(Num 0, Str ''A'', Num 7, Num 1), (Num 3, Str ''A'', Num 8, Undefined),
               (Num 3, Str ''B'', Num 9, Num 2)]"
    by code_simp
  with h6 have e: "map (\<lambda>r. (row_get r ''day'', row_get r ''entityName'', row_get r ''5-cases'',
                      row_get r ''6-deaths'')) (rows t)
             = [(Num 0, Str ''A'', Num 7, Num 1), (Num 3, Str ''A'', Num 8, Undefined),
                (Num 3, Str ''B'', Num 9, Num 2)]"
    by simp
  have ids: "distinct (map var_id (variables ex_daily_json))"
    by (simp add: ex_daily_json_def ex_cases_def ex_daily_def)
  have par: "\<forall>w \<in> set (variables ex_daily_json). parallelArrays w"
    by (simp add: ex_daily_json_def ex_cases_def ex_daily_def parallelArrays_def)
  have date: "observationDate ex_dayNumber ?E ex_cases 2 = observationDate ex_dayNumber ?E ex_daily 1"
    by (simp add: observationDate_def ex_cases_def ex_daily_def ex_dayNumber_def)
  have ent: "observationEntity (entityKey ex_daily_json) ex_cases 2
             = observationEntity (entityKey ex_daily_json) ex_daily 1"
    by (simp add: observationEntity_def ex_cases_def ex_daily_def ex_daily_json_def)
  have s1: "soleObservation (entityKey ex_daily_json) ex_cases 2" by code_simp
  have s2: "soleObservation (entityKey ex_daily_json) ex_daily 1" by code_simp
  have m1: "ex_cases \<in> set (variables ex_daily_json)" "ex_daily \<in> set (variables ex_daily_json)"
    by (simp_all add: ex_daily_json_def)
  have c1: "yearIsDay (display ex_cases)" by (simp add: ex_cases_def)
  have l1: "1 < length (var_values ex_cases) \<and> 1 < length (var_years ex_cases)
            \<and> 1 < length (var_entities ex_cases)"
    "2 < length (var_values ex_cases)"
    by (simp_all add: ex_cases_def)
  have n1: "normalisedDay ex_dayNumber ?E ex_cases 1 = 3"
    "normalisedDay ex_dayNumber ?E ex_cases 2 = 3"
    by (simp_all add: normalisedDay_def ex_cases_def diffDateISOStringInDays_def)
  have o1: "observationEntity (entityKey ex_daily_json) ex_cases 1 = ''A''"
    "observationEntity (entityKey ex_daily_json) ex_cases 2 = ''B''"
    by (simp_all add: observationEntity_def ex_cases_def ex_daily_json_def)
  have sl: "slug (columnSpecFromLegacyVariable (\<lambda>s. s) ex_cases) = ''5-cases''"
    "slug (columnSpecFromLegacyVariable (\<lambda>s. s) ex_daily) = ''6-deaths''"
    by code_simp+
  have vl: "var_values ex_cases ! 2 = Num 9" "var_values ex_daily ! 1 = Num 2"
    by (simp_all add: ex_cases_def ex_daily_def)
  note r = fromLegacy_day_normalised [OF h1 h2 h3 h4 h5, of ex_daily_json t]
  from r have "row_get (rs ! 1) ''day''
      = Num (var_years ex_daily ! 1 + diffDateISOStringInDays ex_dayNumber ''2020-01-11'' ?E)"
    by (rule conjunct1)
  then have a: "row_get (rs ! 1) ''day'' = Num 3"
    by (simp only: y d) simp
  have "ex_dayNumber ?E + 3 = ex_dayNumber ''2020-01-11'' + var_years ex_daily ! 1"
    by (simp only: y) (simp add: ex_dayNumber_def)
  with r have "3 + diffDateISOStringInDays ex_dayNumber ?E ?E
       = var_years ex_daily ! 1 + diffDateISOStringInDays ex_dayNumber ''2020-01-11'' ?E"
    by blast
  then have b: "3 + diffDateISOStringInDays ex_dayNumber ?E ?E
       = 13 + diffDateISOStringInDays ex_dayNumber ''2020-01-11'' ?E"
    by (simp only: y)
  from r h6 have c: "\<forall>r \<in> set (rows t). row_get r ''day'' \<noteq> Undefined \<longrightarrow>
               (\<exists>v' \<in> set (variables ex_daily_json). yearIsDay (display v')
                  \<and> (\<exists>j < length (var_years v').
                        row_get r ''day'' = Num (normalisedDay ex_dayNumber ?E v' j)))"
    by blast
  from r h6 have land: "\<forall>v' \<in> set (variables ex_daily_json). yearIsDay (display v') \<longrightarrow>
                   (\<forall>j. j < length (var_values v') \<and> j < length (var_years v')
                        \<and> j < length (var_entities v') \<longrightarrow>
                      (\<exists>r \<in> set (rows t).
                         row_get r ''day'' = Num (normalisedDay ex_dayNumber ?E v' j)
                         \<and> to_string (row_get r ''entityName'')
                             = observationEntity (entityKey ex_daily_json) v' j))"
    by blast
  with m1(1) c1 l1(1) have "\<exists>r \<in> set (rows t).
                         row_get r ''day'' = Num (normalisedDay ex_dayNumber ?E ex_cases 1)
                         \<and> to_string (row_get r ''entityName'')
                             = observationEntity (entityKey ex_daily_json) ex_cases 1"
    by blast
  then have f: "\<exists>r \<in> set (rows t). row_get r ''day'' = Num 3
                \<and> to_string (row_get r ''entityName'') = ''A''"
    by (simp only: n1 o1)
  from r h6 ids par have both: "\<forall>v1 \<in> set (variables ex_daily_json).
                 \<forall>v2 \<in> set (variables ex_daily_json).
                    yearIsDay (display v1) \<and> yearIsDay (display v2) \<longrightarrow>
                    (\<forall>j1 < length (var_values v1). \<forall>j2 < length (var_values v2).
                       observationDate ex_dayNumber ?E v1 j1 = observationDate ex_dayNumber ?E v2 j2
                       \<and> observationEntity (entityKey ex_daily_json) v1 j1
                           = observationEntity (entityKey ex_daily_json) v2 j2
                       \<and> soleObservation (entityKey ex_daily_json) v1 j1
                       \<and> soleObservation (entityKey ex_daily_json) v2 j2 \<longrightarrow>
                       (\<exists>r \<in> set (rows t).
                          row_get r ''day'' = Num (normalisedDay ex_dayNumber ?E v1 j1)
                          \<and> row_get r ''day'' = Num (normalisedDay ex_dayNumber ?E v2 j2)
                          \<and> row_get r ''entityName''
                              = Str (observationEntity (entityKey ex_daily_json) v1 j1)
                          \<and> row_get r (slug (columnSpecFromLegacyVariable (\<lambda>s. s) v1))
                              = var_values v1 ! j1
                          \<and> row_get r (slug (columnSpecFromLegacyVariable (\<lambda>s. s) v2))
                              = var_values v2 ! j2))"
    by blast
  with m1 c1 h1 l1(2) h4 date ent s1 s2
  have "\<exists>r \<in> set (rows t).
                          row_get r ''day'' = Num (normalisedDay ex_dayNumber ?E ex_cases 2)
                          \<and> row_get r ''day'' = Num (normalisedDay ex_dayNumber ?E ex_daily 1)
                          \<and> row_get r ''entityName''
                              = Str (observationEntity (entityKey ex_daily_json) ex_cases 2)
                          \<and> row_get r (slug (columnSpecFromLegacyVariable (\<lambda>s. s) ex_cases))
                              = var_values ex_cases ! 2
                          \<and> row_get r (slug (columnSpecFromLegacyVariable (\<lambda>s. s) ex_daily))
                              = var_values ex_daily ! 1"
    by blast
  then have g: "\<exists>r \<in> set (rows t). row_get r ''day'' = Num 3
                \<and> row_get r ''entityName'' = Str ''B''
                \<and> row_get r ''5-cases'' = Num 9 \<and> row_get r ''6-deaths'' = Num 2"
    by (simp only: n1 o1 sl vl) blast
  from h3 a have p1: "\<exists>rs. legacyRows (\<lambda>s. s) ex_dayNumber ?E (entityKey ex_json) ex_daily = Inr rs
         \<and> row_get (rs ! 1) ''day'' = Num 3"
    by blast
  from h6 e c f g have p2: "\<exists>t. fromLegacy (\<lambda>s. s) ex_dayNumber ?E ex_daily_json = Inr t
         \<and> map (\<lambda>r. (row_get r ''day'', row_get r ''entityName'', row_get r ''5-cases'',
                      row_get r ''6-deaths'')) (rows t)
             = [(Num 0, Str ''A'', Num 7, Num 1), (Num 3, Str ''A'', Num 8, Undefined),
                (Num 3, Str ''B'', Num 9, Num 2)]
         \<and> (\<forall>r \<in> set (rows t). row_get r ''day'' \<noteq> Undefined \<longrightarrow>
               (\<exists>v' \<in> set (variables ex_daily_json). yearIsDay (display v')
                  \<and> (\<exists>j < length (var_years v').
                        row_get r ''day'' = Num (normalisedDay ex_dayNumber ?E v' j))))
         \<and> (\<exists>r \<in> set (rows t). row_get r ''day'' = Num 3
                \<and> to_string (row_get r ''entityName'') = ''A'')
         \<and> (\<exists>r \<in> set (rows t). row_get r ''day'' = Num 3
                \<and> row_get r ''entityName'' = Str ''B''
                \<and> row_get r ''5-cases'' = Num 9 \<and> row_get r ''6-deaths'' = Num 2)"
    by (intro exI [of _ t] conjI)
  have pc: "parallelArrays ex_cases" "parallelArrays ex_daily"
    by (simp_all add: ex_cases_def ex_daily_def parallelArrays_def)
  from h1 h2 p1 b ids pc date s1 s2 p2 show ?thesis by (intro conjI)
qed

section \<open>Readiness and filled dimensions\<close>

lemma foldl_update_varKey:
  "map_of (foldl (\<lambda>m (i, c). AList.update (case owidVariableId (spec c) of None \<Rightarrow> int i | Some v \<Rightarrow> v) c m)
             m0 (enumerate n cs)) k = Some col
   \<Longrightarrow> map_of m0 k = Some col
       \<or> (\<exists>j < length cs. cs ! j = col
             \<and> (owidVariableId (spec col) = Some k
                  \<or> owidVariableId (spec col) = None \<and> int (n + j) = k))"
proof (induction cs arbitrary: n m0)
  case Nil
  then show ?case by simp
next
  case (Cons c cs)
  let ?key = "case owidVariableId (spec c) of None \<Rightarrow> int n | Some v \<Rightarrow> v"
  from Cons.prems have
    "map_of (foldl (\<lambda>m (i, c). AList.update (case owidVariableId (spec c) of None \<Rightarrow> int i | Some v \<Rightarrow> v) c m)
        (AList.update ?key c m0) (enumerate (Suc n) cs)) k = Some col"
    by simp
  from Cons.IH [OF this] show ?case
  proof
    assume a: "map_of (AList.update ?key c m0) k = Some col"
    show ?thesis
    proof (cases "k = ?key")
      case True
      with a have "c = col" by (simp add: update_conv')
      moreover from True have "owidVariableId (spec c) = Some k
          \<or> owidVariableId (spec c) = None \<and> int (n + 0) = k"
        by (cases "owidVariableId (spec c)") auto
      ultimately have "0 < length (c # cs) \<and> (c # cs) ! 0 = col
          \<and> (owidVariableId (spec col) = Some k
                \<or> owidVariableId (spec col) = None \<and> int (n + 0) = k)"
        by simp
      then show ?thesis by blast
    next
      case False
      with a have "map_of m0 k = Some col" by (simp add: update_conv')
      then show ?thesis by simp
    qed
  next
    assume "\<exists>j<length cs. cs ! j = col
       \<and> (owidVariableId (spec col) = Some k \<or> owidVariableId (spec col) = None \<and> int (Suc n + j) = k)"
    then obtain j where "j < length cs" "cs ! j = col"
      "owidVariableId (spec col) = Some k \<or> owidVariableId (spec col) = None \<and> int (Suc n + j) = k"
      by blast
    then have "Suc j < length (c # cs) \<and> (c # cs) ! Suc j = col
      \<and> (owidVariableId (spec col) = Some k
            \<or> owidVariableId (spec col) = None \<and> int (n + Suc j) = k)"
      by simp
    then show ?thesis by blast
  qed
qed

lemma columnsByOwidVarId_Some:
  assumes "map_of (columnsByOwidVarId t) k = Some col"
  shows "\<exists>j < length (columnsAsArray t). columnsAsArray t ! j = col
           \<and> (owidVariableId (spec col) = Some k
                \<or> owidVariableId (spec col) = None \<and> int j = k)"
proof -
  from assms have "map_of (foldl (\<lambda>m (i, c). AList.update (case owidVariableId (spec c) of None \<Rightarrow> int i | Some v \<Rightarrow> v) c m)
             [] (enumerate 0 (columnsAsArray t))) k = Some col"
    by (simp add: columnsByOwidVarId_def)
  from foldl_update_varKey [OF this] show ?thesis by simp
qed

lemma isReady_iff:
  "isReady c \<longleftrightarrow> (\<forall>d \<in> set (dimensions c). map_of (columnsByOwidVarId (table c)) (variableId d) \<noteq> None)"
  by (auto simp: isReady_def loadingVarIds_def filter_empty_conv)

text \<open>
  C1 (amended). When the chart is ready, \<open>filledDimensions\<close> has one element per
  configured dimension, in order, and the column of each element is a registered column
  that either carries the dimension's \<open>variableId\<close> as its \<open>owidVariableId\<close> or
  carries no \<open>owidVariableId\<close> and stands at registration position \<open>variableId\<close>
  (the key \<open>owidVariableId ?? index\<close> of \<open>columnsByOwidVarId\<close>). While the chart is not
  ready, \<open>filledDimensions\<close> is empty.
\<close>

theorem filledDimensions_resolved:
  "(isReady c \<longrightarrow>
      length (filledDimensions c) = length (dimensions c)
      \<and> (\<forall>i < length (dimensions c).
            props (filledDimensions c ! i) = dimensions c ! i
            \<and> (\<exists>col j. column (filledDimensions c ! i) = Some col
                 \<and> j < length (columnsAsArray (table c)) \<and> columnsAsArray (table c) ! j = col
                 \<and> (owidVariableId (spec col) = Some (variableId (dimensions c ! i))
                      \<or> owidVariableId (spec col) = None \<and> int j = variableId (dimensions c ! i)))))
   \<and> (\<not> isReady c \<longrightarrow> filledDimensions c = [])"
proof (intro conjI impI allI)
  assume r: "isReady c"
  show "length (filledDimensions c) = length (dimensions c)"
    using r by (simp add: filledDimensions_def)
  fix i assume i: "i < length (dimensions c)"
  let ?d = "dimensions c ! i"
  have fd: "filledDimensions c ! i = \<lparr>dim_index = i, props = ?d,
      column = map_of (columnsByOwidVarId (table c)) (variableId ?d)\<rparr>"
    using r i by (simp add: filledDimensions_def nth_enumerate_eq)
  show "props (filledDimensions c ! i) = ?d" by (simp add: fd)
  from r i have "map_of (columnsByOwidVarId (table c)) (variableId ?d) \<noteq> None"
    by (simp add: isReady_iff)
  then obtain col where col: "map_of (columnsByOwidVarId (table c)) (variableId ?d) = Some col"
    by blast
  from columnsByOwidVarId_Some [OF col] obtain j where
    "j < length (columnsAsArray (table c))" "columnsAsArray (table c) ! j = col"
    "owidVariableId (spec col) = Some (variableId ?d)
       \<or> owidVariableId (spec col) = None \<and> int j = variableId ?d"
    by blast
  with col have "column (filledDimensions c ! i) = Some col
                 \<and> j < length (columnsAsArray (table c)) \<and> columnsAsArray (table c) ! j = col
                 \<and> (owidVariableId (spec col) = Some (variableId (dimensions c ! i))
                      \<or> owidVariableId (spec col) = None \<and> int j = variableId (dimensions c ! i))"
    by (simp add: fd)
  then show "\<exists>col j. column (filledDimensions c ! i) = Some col
                 \<and> j < length (columnsAsArray (table c)) \<and> columnsAsArray (table c) ! j = col
                 \<and> (owidVariableId (spec col) = Some (variableId (dimensions c ! i))
                      \<or> owidVariableId (spec col) = None \<and> int j = variableId (dimensions c ! i))"
    by blast
next
  assume "\<not> isReady c"
  then show "filledDimensions c = []" by (simp add: filledDimensions_def)
qed

text \<open>
  The claim as stated fails: the chart \<open>ex_chart_index\<close> is ready, and its dimension for
  variable 3 is resolved to the column \<open>year\<close>, which has no \<open>owidVariableId\<close>.
\<close>

theorem filledDimensions_index_fallback:
  "isReady ex_chart_index
   \<and> length (filledDimensions ex_chart_index) = 2
   \<and> variableId (props (filledDimensions ex_chart_index ! 1)) = 3
   \<and> map_option (owidVariableId \<circ> spec) (column (filledDimensions ex_chart_index ! 1)) = Some None
   \<and> map_option (slug \<circ> spec) (column (filledDimensions ex_chart_index ! 1)) = Some ''year''"
  by code_simp

theorem filledDimensions_resolved_witness:
  "isReady ex_chart_index \<and> length (filledDimensions ex_chart_index) = length (dimensions ex_chart_index)
   \<and> \<not> isReady (ex_chart_index\<lparr>dimensions := [\<lparr>property = ''y'', variableId = 77\<rparr>]\<rparr>)
   \<and> filledDimensions (ex_chart_index\<lparr>dimensions := [\<lparr>property = ''y'', variableId = 77\<rparr>]\<rparr>) = []"
proof -
  have r: "isReady ex_chart_index" by code_simp
  have n: "\<not> isReady (ex_chart_index\<lparr>dimensions := [\<lparr>property = ''y'', variableId = 77\<rparr>]\<rparr>)"
    by code_simp
  show ?thesis
    using r n filledDimensions_resolved [of ex_chart_index]
      filledDimensions_resolved [of "ex_chart_index\<lparr>dimensions := [\<lparr>property = ''y'', variableId = 77\<rparr>]\<rparr>"]
    by blast
qed

section \<open>Keys and selection\<close>

lemma sameProps_refl: "sameProps c c"
  by (simp add: sameProps_def)

lemma sameProps_trans: "sameProps a b \<Longrightarrow> sameProps b c \<Longrightarrow> sameProps a c"
  by (simp add: sameProps_def)

lemma sameProps_table: "sameProps c (c\<lparr>table := t\<rparr>)"
  by (simp add: sameProps_def)

lemma entityNamesUniq_frame:
  assumes "entityNamesUniq c d = Inr (c', ns)"
  shows "sameProps c c'"
proof (cases "column d")
  case None
  with assms show ?thesis by (simp add: entityNamesUniq_def)
next
  case (Some col)
  show ?thesis
  proof (cases "column_entityNamesUniq (table c) col")
    case (Inl e)
    with assms Some show ?thesis by (simp add: entityNamesUniq_def)
  next
    case (Inr p)
    obtain t' names where "p = (t', names)" by (cases p)
    with assms Some Inr have "c' = c\<lparr>table := t'\<rparr>" by (simp add: entityNamesUniq_def)
    then show ?thesis by (simp add: sameProps_table)
  qed
qed

lemma keyData_foldl_keys:
  assumes "\<forall>(k, d) \<in> set kd. info_key d = k"
  shows "\<forall>(k, d) \<in> set (foldl (\<lambda>kd entityName.
                      AList.update (makeEntityDimensionKey entityName (int dimensionIndex))
                        (entityDimensionInfo t dimensionIndex dimension entityName) kd)
               kd names). info_key d = k"
  using assms
proof (induction names arbitrary: kd)
  case Nil
  then show ?case by simp
next
  case (Cons n names)
  let ?k = "makeEntityDimensionKey n (int dimensionIndex)"
  let ?d = "entityDimensionInfo t dimensionIndex dimension n"
  have "info_key ?d = ?k" by (simp add: entityDimensionInfo_def)
  then have "\<forall>(k, d) \<in> set (AList.update ?k ?d kd). info_key d = k"
    using Cons.prems update_subset [of ?k ?d kd] by auto
  from Cons.IH [OF this] show ?case by simp
qed

lemma entityDimensionLoop_frame:
  assumes "entityDimensionLoop c ds kd = Inr (c', m)"
    and "\<forall>(k, d) \<in> set kd. info_key d = k"
  shows "sameProps c c' \<and> (\<forall>(k, d) \<in> set m. info_key d = k)"
  using assms
proof (induction ds arbitrary: c kd)
  case Nil
  then show ?case by (simp add: sameProps_refl)
next
  case (Cons p ds)
  obtain i d where p: "p = (i, d)" by (cases p)
  from Cons.prems(1) obtain c1 ns where
    n: "entityNamesUniq c d = Inr (c1, ns)"
    by (cases "entityNamesUniq c d") (auto simp: p)
  let ?kd = "foldl (\<lambda>kd entityName.
                      AList.update (makeEntityDimensionKey entityName (int i))
                        (entityDimensionInfo (table c1) i d entityName) kd)
               kd ns"
  from Cons.prems(1) n have l: "entityDimensionLoop c1 ds ?kd = Inr (c', m)"
    by (simp add: p)
  have "\<forall>(k, d) \<in> set ?kd. info_key d = k"
    using Cons.prems(2) by (rule keyData_foldl_keys)
  from Cons.IH [OF l this] entityNamesUniq_frame [OF n]
  show ?case by (blast intro: sameProps_trans)
qed

lemma lookupKey_frame:
  assumes "lookupKey c key = Inr (c', meta)"
  shows "sameProps c c' \<and> info_key meta = key"
proof -
  from assms obtain m where
    m: "entityDimensionMap c = Inr (c', m)" and g: "map_of m key = Some meta"
    by (auto simp: lookupKey_def split: sum.splits option.splits)
  have "sameProps c c' \<and> (\<forall>(k, d) \<in> set m. info_key d = k)"
  proof (cases "isReady c")
    case True
    with m have "entityDimensionLoop c (enumerate 0 (primaryDimensions c)) [] = Inr (c', m)"
      by (simp add: entityDimensionMap_def)
    then show ?thesis by (rule entityDimensionLoop_frame) simp
  next
    case False
    with m show ?thesis by (simp add: entityDimensionMap_def sameProps_refl)
  qed
  moreover from g have "(key, meta) \<in> set m" by (rule map_of_SomeD)
  ultimately show ?thesis by blast
qed

text \<open>
  C10. For a key of the current key index, \<open>setKeyColor\<close> succeeds and replaces the
  persisted selection by a list of the same length in which every entry keeps its
  \<open>entityId\<close> and \<open>index\<close>, and the colour is the given one on the entries matching the
  key's \<open>(entityId, index)\<close> and the old one on all others.
\<close>

theorem setKeyColor_frame:
  assumes "lookupKey c key = Inr (c', meta)"
  shows "\<exists>c''. setKeyColor c key col = Inr c''
           \<and> info_key meta = key
           \<and> length (selectedData c'') = length (selectedData c)
           \<and> (\<forall>i < length (selectedData c).
                 entityId (selectedData c'' ! i) = entityId (selectedData c ! i)
                 \<and> index (selectedData c'' ! i) = index (selectedData c ! i)
                 \<and> color (selectedData c'' ! i)
                     = (if entityId (selectedData c ! i) = info_entityId meta
                           \<and> index (selectedData c ! i) = int (info_index meta)
                        then col else color (selectedData c ! i)))"
proof -
  from lookupKey_frame [OF assms] have s: "selectedData c' = selectedData c"
    and k: "info_key meta = key"
    by (simp_all add: sameProps_def)
  let ?c = "c'\<lparr>selectedData :=
                 map (\<lambda>d. if entityId d = info_entityId meta \<and> index d = int (info_index meta)
                          then d\<lparr>color := col\<rparr> else d)
                   (selectedData c')\<rparr>"
  have "setKeyColor c key col = Inr ?c"
    using assms by (simp add: setKeyColor_def)
  moreover have "length (selectedData ?c) = length (selectedData c)"
    by (simp add: s)
  moreover have "\<forall>i < length (selectedData c).
                 entityId (selectedData ?c ! i) = entityId (selectedData c ! i)
                 \<and> index (selectedData ?c ! i) = index (selectedData c ! i)
                 \<and> color (selectedData ?c ! i)
                     = (if entityId (selectedData c ! i) = info_entityId meta
                           \<and> index (selectedData c ! i) = int (info_index meta)
                        then col else color (selectedData c ! i))"
    by (simp add: s)
  ultimately show ?thesis using k by blast
qed

theorem setKeyColor_frame_witness:
  "\<exists>c' meta c''. lookupKey ex_selection_chart ''B_0'' = Inr (c', meta)
     \<and> setKeyColor ex_selection_chart ''B_0'' (Some ''blue'') = Inr c''
     \<and> info_key meta = ''B_0''
     \<and> length (selectedData c'') = length (selectedData ex_selection_chart)"
proof -
  have "\<not> isl (lookupKey ex_selection_chart ''B_0'')" by code_simp
  then obtain c' meta where l: "lookupKey ex_selection_chart ''B_0'' = Inr (c', meta)"
    by (cases "lookupKey ex_selection_chart ''B_0''") auto
  from setKeyColor_frame [OF l, of "Some ''blue''"] l show ?thesis by blast
qed




lemma chart_table_same: "c\<lparr>table := table c\<rparr> = (c::ChartConfig)"
  by simp



































end
